theory Spec2Isabelle
  imports Complex_Main
begin

section \<open>The tape~ external: data model\<close>

text \<open>
  The object of \<^verbatim>\<open>tape.c\<close>. \<^verbatim>\<open>FLOAT\<close> is \<^verbatim>\<open>double\<close>; a double is modelled by the real
  number it stands for, so arithmetic is exact and the model speaks about finite values
  only (no rounding, no infinities, no NaN). The library functions \<^verbatim>\<open>sin\<close>, \<^verbatim>\<open>cos\<close>,
  \<^verbatim>\<open>tan\<close>, \<^verbatim>\<open>asin\<close> and \<^verbatim>\<open>fabs\<close> are the real functions of the same name.
  Two places leave this reading: a division by a sample rate of 0, and \<^verbatim>\<open>tan\<close> at an odd
  multiple of \<open>pi / 2\<close>; there the functions of the logic return 0, where the code
  produces infinities or very large values. Statements about the coefficients therefore
  assume a sample rate above 0.

  The two arrays \<^verbatim>\<open>FLOAT biquadA[9]\<close>, \<^verbatim>\<open>biquadB[9]\<close> are stores from index to value;
  the code only uses the constant indices 2 to 8. The Pd header \<^verbatim>\<open>x_obj\<close> is left out.
  The samples of a block are \<^verbatim>\<open>t_float\<close> values (a type of \<^verbatim>\<open>m_pd.h\<close>); they are
  modelled as reals as well, and an output sample is the value the loop computes.
\<close>

record tape =
  x_f :: real
  x_sr :: real
  iirMidRollerA :: real
  iirMidRollerB :: real
  iirHeadBumpA :: real
  iirHeadBumpB :: real
  biquadA :: "nat \<Rightarrow> real"
  biquadB :: "nat \<Rightarrow> real"
  lastSample :: real
  flip :: int

definition INPUT_GAIN :: real where
  "INPUT_GAIN = 1.0"

definition HEAD_BUMP :: real where
  "HEAD_BUMP = 0.05"

text \<open>\<^verbatim>\<open>M_PI\<close> of \<^verbatim>\<open>math.h\<close>: the real number it approximates.\<close>

definition M_PI :: real where
  "M_PI = pi"

section \<open>Spiral saturation\<close>

definition spiral_saturate :: "real \<Rightarrow> real" where
  "spiral_saturate input0 =
    (let input1 = (if input0 > 1.2533141373155 then 1.2533141373155 else input0);
         input2 = (if input1 < - 1.2533141373155 then - 1.2533141373155 else input1);
         absInput = \<bar>input2\<bar>
     in if absInput = 0.0 then 0.0 else sin (input2 * absInput) / absInput)"

section \<open>ADClip soft limiting\<close>

definition softness :: real where
  "softness = 0.618033988749894848204586"

text \<open>
  \<^verbatim>\<open>adclip(input, &lastSample)\<close>: the result is the pair of the returned value and the
  new content of \<^verbatim>\<open>*lastSample\<close>.
\<close>

definition adclip :: "real \<Rightarrow> real \<Rightarrow> real \<times> real" where
  "adclip input0 last0 =
    (let last1 = (if last0 \<ge> 0.99
                  then (if input0 < 0.99 then (0.99 * softness) + (input0 * (1.0 - softness))
                        else 0.99)
                  else last0);
         last2 = (if last1 \<le> - 0.99
                  then (if input0 > - 0.99 then (- 0.99 * softness) + (input0 * (1.0 - softness))
                        else - 0.99)
                  else last1);
         input1 = (if input0 > 0.99
                   then (if last2 < 0.99 then (0.99 * softness) + (last2 * (1.0 - softness))
                         else 0.99)
                   else input0);
         input2 = (if input1 < - 0.99
                   then (if last2 > - 0.99 then (- 0.99 * softness) + (last2 * (1.0 - softness))
                         else - 0.99)
                   else input1)
     in (input2, input2))"

text \<open>A sequence of samples fed to \<^const>\<open>adclip\<close>, the memory threaded through the calls.\<close>

fun adclip_seq :: "real \<Rightarrow> real list \<Rightarrow> real \<times> real list" where
  "adclip_seq last0 [] = (last0, [])"
| "adclip_seq last0 (x # xs) =
    (let (y, last1) = adclip x last0;
         (last2, ys) = adclip_seq last1 xs
     in (last2, y # ys))"

section \<open>Construction and sample rate\<close>

text \<open>
  \<^verbatim>\<open>tape_new\<close> assigns the fields below to the object that \<^verbatim>\<open>pd_new\<close> returns (the
  argument); it does not assign \<^verbatim>\<open>x_sr\<close>. The loop over \<^verbatim>\<open>i < 9\<close> clears both arrays.
\<close>

definition tape_new :: "tape \<Rightarrow> tape" where
  "tape_new x =
    x\<lparr>x_f := 0, iirMidRollerA := 0.0, iirMidRollerB := 0.0,
      iirHeadBumpA := 0.0, iirHeadBumpB := 0.0, lastSample := 0.0, flip := 0,
      biquadA := (\<lambda>i. if i < 9 then 0.0 else biquadA x i),
      biquadB := (\<lambda>i. if i < 9 then 0.0 else biquadB x i)\<rparr>"

text \<open>\<^verbatim>\<open>tape_dsp\<close> stores the sample rate of the signal.\<close>

definition tape_dsp :: "tape \<Rightarrow> real \<Rightarrow> tape" where
  "tape_dsp x s_sr = x\<lparr>x_sr := s_sr\<rparr>"

text \<open>An all-zero object, as a concrete starting point.\<close>

definition tape_zero :: tape where
  "tape_zero =
    \<lparr>x_f = 0, x_sr = 0, iirMidRollerA = 0, iirMidRollerB = 0, iirHeadBumpA = 0,
     iirHeadBumpB = 0, biquadA = (\<lambda>i. 0), biquadB = (\<lambda>i. 0), lastSample = 0, flip = 0\<rparr>"

section \<open>The perform routine\<close>

subsection \<open>Coefficients derived at the start of a block\<close>

definition overallscale :: "tape \<Rightarrow> real" where
  "overallscale x = x_sr x / 44100.0"

definition RollAmount :: "tape \<Rightarrow> real" where
  "RollAmount x = (1.0 - softness) / overallscale x"

definition HeadBumpFreq :: "tape \<Rightarrow> real" where
  "HeadBumpFreq x = 0.12 / overallscale x"

definition biquadFreq :: "tape \<Rightarrow> real" where
  "biquadFreq x = 0.0072 / overallscale x"

definition biquadQ :: real where
  "biquadQ = 0.0009"

definition coefK :: "tape \<Rightarrow> real" where
  "coefK x = tan (M_PI * biquadFreq x)"

definition coef_norm :: "tape \<Rightarrow> real" where
  "coef_norm x = 1.0 / (1.0 + coefK x / biquadQ + coefK x * coefK x)"

definition coef_a0 :: "tape \<Rightarrow> real" where
  "coef_a0 x = coefK x / biquadQ * coef_norm x"

definition coef_a1 :: "tape \<Rightarrow> real" where
  "coef_a1 x = 0.0"

definition coef_a2 :: "tape \<Rightarrow> real" where
  "coef_a2 x = - coef_a0 x"

definition coef_b1 :: "tape \<Rightarrow> real" where
  "coef_b1 x = 2.0 * (coefK x * coefK x - 1.0) * coef_norm x"

definition coef_b2 :: "tape \<Rightarrow> real" where
  "coef_b2 x = (1.0 - coefK x / biquadQ + coefK x * coefK x) * coef_norm x"

text \<open>The five assignments \<^verbatim>\<open>x->biquadA[i] = x->biquadB[i] = ...\<close> for i from 2 to 6.\<close>

definition tape_setup :: "tape \<Rightarrow> tape" where
  "tape_setup x =
    x\<lparr>biquadA := (biquadA x)(2 := coef_a0 x, 3 := coef_a1 x, 4 := coef_a2 x,
                              5 := coef_b1 x, 6 := coef_b2 x),
      biquadB := (biquadB x)(2 := coef_a0 x, 3 := coef_a1 x, 4 := coef_a2 x,
                              5 := coef_b1 x, 6 := coef_b2 x)\<rparr>"

subsection \<open>One pass of the sample loop\<close>

text \<open>
  The branch taken when \<^verbatim>\<open>x->flip\<close> is nonzero: roll-off and head bump of the A side. The
  result is the object and \<^verbatim>\<open>HighsSample\<close>.
\<close>

definition tape_sideA :: "real \<Rightarrow> real \<Rightarrow> tape \<Rightarrow> real \<Rightarrow> tape \<times> real" where
  "tape_sideA roll bump x inputSample =
    (let midRoller = (iirMidRollerA x * (1.0 - roll)) + (inputSample * roll);
         HighsSample = inputSample - midRoller;
         hb1 = iirHeadBumpA x + (inputSample * 0.05);
         hb2 = hb1 - (hb1 * hb1 * hb1 * bump);
         hb3 = sin hb2;
         bq = biquadA x;
         tempSample = (hb3 * bq 2) + bq 7;
         bq1 = bq(7 := (hb3 * bq 3) - (tempSample * bq 5) + bq 8);
         bq2 = bq1(8 := (hb3 * bq1 4) - (tempSample * bq1 6));
         hb4 = tempSample;
         hb5 = (if hb4 > 1.0 then 1.0 else hb4);
         hb6 = (if hb5 < - 1.0 then - 1.0 else hb5)
     in (x\<lparr>iirMidRollerA := midRoller, iirHeadBumpA := arcsin hb6, biquadA := bq2\<rparr>,
         HighsSample))"

text \<open>The else branch: the same on the B side.\<close>

definition tape_sideB :: "real \<Rightarrow> real \<Rightarrow> tape \<Rightarrow> real \<Rightarrow> tape \<times> real" where
  "tape_sideB roll bump x inputSample =
    (let midRoller = (iirMidRollerB x * (1.0 - roll)) + (inputSample * roll);
         HighsSample = inputSample - midRoller;
         hb1 = iirHeadBumpB x + (inputSample * 0.05);
         hb2 = hb1 - (hb1 * hb1 * hb1 * bump);
         hb3 = sin hb2;
         bq = biquadB x;
         tempSample = (hb3 * bq 2) + bq 7;
         bq1 = bq(7 := (hb3 * bq 3) - (tempSample * bq 5) + bq 8);
         bq2 = bq1(8 := (hb3 * bq1 4) - (tempSample * bq1 6));
         hb4 = tempSample;
         hb5 = (if hb4 > 1.0 then 1.0 else hb4);
         hb6 = (if hb5 < - 1.0 then - 1.0 else hb5)
     in (x\<lparr>iirMidRollerB := midRoller, iirHeadBumpB := arcsin hb6, biquadB := bq2\<rparr>,
         HighsSample))"

text \<open>The alternation and \<^verbatim>\<open>x->flip = !x->flip\<close>.\<close>

definition tape_filters :: "real \<Rightarrow> real \<Rightarrow> tape \<Rightarrow> real \<Rightarrow> tape \<times> real" where
  "tape_filters roll bump x inputSample =
    (let (x1, HighsSample) =
           (if flip x \<noteq> 0 then tape_sideA roll bump x inputSample
            else tape_sideB roll bump x inputSample)
     in (x1\<lparr>flip := (if flip x1 = 0 then 1 else 0)\<rparr>, HighsSample))"

text \<open>High frequency softening of the sample.\<close>

definition tape_soften :: "real \<Rightarrow> real \<Rightarrow> real" where
  "tape_soften HighsSample inputSample =
    (let soften1 = \<bar>HighsSample\<bar> * 1.57079633;
         soften2 = (if soften1 > 1.57079633 then 1.57079633 else soften1);
         applySoften = 1.0 - cos soften2;
         input1 = (if HighsSample > 0 then inputSample - applySoften else inputSample);
         input2 = (if HighsSample < 0 then input1 + applySoften else input1)
     in input2)"

text \<open>One of the four guards that restrain a head bump value.\<close>

definition restrain :: "real \<Rightarrow> real \<Rightarrow> real" where
  "restrain suppress hb =
    (let hb1 = (if hb > suppress then hb - suppress else hb);
         hb2 = (if hb1 < - suppress then hb1 + suppress else hb1)
     in hb2)"

definition tape_suppress :: "real \<Rightarrow> real" where
  "tape_suppress inputSample = (1.0 - \<bar>inputSample\<bar>) * 0.00013"

definition tape_restrain :: "real \<Rightarrow> tape \<Rightarrow> tape" where
  "tape_restrain suppress x =
    x\<lparr>iirHeadBumpA := restrain suppress (iirHeadBumpA x),
      iirHeadBumpB := restrain suppress (iirHeadBumpB x)\<rparr>"

text \<open>The final hard clip.\<close>

definition hard_clip :: "real \<Rightarrow> real" where
  "hard_clip inputSample =
    (let input1 = (if inputSample > 0.99 then 0.99 else inputSample);
         input2 = (if input1 < - 0.99 then - 0.99 else input1)
     in input2)"

text \<open>
  The body of the loop for one sample \<^verbatim>\<open>*in++\<close>: the object after it and the value written
  to \<^verbatim>\<open>*out++\<close>. The sample is read before the output is written, so a shared buffer makes
  no difference. \<^verbatim>\<open>drySample\<close> is never read.
\<close>

definition tape_sample :: "real \<Rightarrow> real \<Rightarrow> tape \<Rightarrow> real \<Rightarrow> tape \<times> real" where
  "tape_sample roll bump x sample =
    (let input0 = sample * INPUT_GAIN;
         (x1, HighsSample) = tape_filters roll bump x input0;
         input1 = tape_soften HighsSample input0;
         input2 = spiral_saturate input1;
         x2 = tape_restrain (tape_suppress input2) x1;
         input3 = input2 + ((iirHeadBumpA x2 + iirHeadBumpB x2) * HEAD_BUMP);
         (input4, last) = adclip input3 (lastSample x2);
         x3 = x2\<lparr>lastSample := last\<rparr>
     in (x3, hard_clip input4))"

text \<open>The loop \<^verbatim>\<open>while (n--)\<close> over the \<^verbatim>\<open>n\<close> samples of the block.\<close>

fun tape_loop :: "real \<Rightarrow> real \<Rightarrow> tape \<Rightarrow> real list \<Rightarrow> tape \<times> real list" where
  "tape_loop roll bump x [] = (x, [])"
| "tape_loop roll bump x (sample # rest) =
    (let (x1, y) = tape_sample roll bump x sample;
         (x2, ys) = tape_loop roll bump x1 rest
     in (x2, y # ys))"

text \<open>\<^verbatim>\<open>tape_perform\<close> on an input block: the object afterwards and the output block.\<close>

definition tape_perform :: "tape \<Rightarrow> real list \<Rightarrow> tape \<times> real list" where
  "tape_perform x block = tape_loop (RollAmount x) (HeadBumpFreq x) (tape_setup x) block"

text \<open>Consecutive calls of \<^const>\<open>tape_perform\<close> on the same object, the outputs in order.\<close>

fun tape_blocks :: "tape \<Rightarrow> real list list \<Rightarrow> tape \<times> real list" where
  "tape_blocks x [] = (x, [])"
| "tape_blocks x (block # rest) =
    (let (x1, ys) = tape_perform x block;
         (x2, zs) = tape_blocks x1 rest
     in (x2, ys @ zs))"

subsection \<open>Which side a pass advances\<close>

datatype side = SideA | SideB

text \<open>The side whose branch the loop body takes on the next sample.\<close>

definition tape_side :: "tape \<Rightarrow> side" where
  "tape_side x = (if flip x \<noteq> 0 then SideA else SideB)"



subsection \<open>The life of an object\<close>

text \<open>
  After \<^const>\<open>tape_new\<close> the host calls \<^verbatim>\<open>tape_dsp\<close> whenever the signal graph is
  built and \<^verbatim>\<open>tape_perform\<close> once per block, in any order and number.
\<close>

datatype event = Dsp real | Perform "real list"

fun tape_event :: "tape \<Rightarrow> event \<Rightarrow> tape" where
  "tape_event x (Dsp s_sr) = tape_dsp x s_sr"
| "tape_event x (Perform block) = fst (tape_perform x block)"

fun tape_events :: "tape \<Rightarrow> event list \<Rightarrow> tape" where
  "tape_events x [] = x"
| "tape_events x (e # es) = tape_events (tape_event x e) es"

section \<open>Doubles with infinities and NaN\<close>

text \<open>
  A second reading of \<^verbatim>\<open>double\<close> that keeps the special values of IEEE 754: a finite
  value (still an exact real: no rounding, no overflow), the two infinities and NaN.
  The operations follow IEEE 754 on the special values; there is one zero, which divides
  like the positive zero.
\<close>

datatype dbl = Fin real | PInf | NInf | NaN

instantiation dbl :: "{plus, uminus, times, inverse, abs, ord}"
begin

fun uminus_dbl :: "dbl \<Rightarrow> dbl" where
  "uminus_dbl (Fin a) = Fin (- a)"
| "uminus_dbl PInf = NInf"
| "uminus_dbl NInf = PInf"
| "uminus_dbl NaN = NaN"

fun plus_dbl :: "dbl \<Rightarrow> dbl \<Rightarrow> dbl" where
  "plus_dbl NaN y = NaN"
| "plus_dbl x NaN = NaN"
| "plus_dbl (Fin a) (Fin b) = Fin (a + b)"
| "plus_dbl PInf NInf = NaN"
| "plus_dbl NInf PInf = NaN"
| "plus_dbl PInf y = PInf"
| "plus_dbl x PInf = PInf"
| "plus_dbl NInf y = NInf"
| "plus_dbl x NInf = NInf"

fun times_dbl :: "dbl \<Rightarrow> dbl \<Rightarrow> dbl" where
  "times_dbl NaN y = NaN"
| "times_dbl x NaN = NaN"
| "times_dbl (Fin a) (Fin b) = Fin (a * b)"
| "times_dbl (Fin a) PInf = (if a = 0 then NaN else if a > 0 then PInf else NInf)"
| "times_dbl (Fin a) NInf = (if a = 0 then NaN else if a > 0 then NInf else PInf)"
| "times_dbl PInf (Fin b) = (if b = 0 then NaN else if b > 0 then PInf else NInf)"
| "times_dbl NInf (Fin b) = (if b = 0 then NaN else if b > 0 then NInf else PInf)"
| "times_dbl PInf PInf = PInf"
| "times_dbl PInf NInf = NInf"
| "times_dbl NInf PInf = NInf"
| "times_dbl NInf NInf = PInf"

fun divide_dbl :: "dbl \<Rightarrow> dbl \<Rightarrow> dbl" where
  "divide_dbl NaN y = NaN"
| "divide_dbl x NaN = NaN"
| "divide_dbl (Fin a) (Fin b) =
    (if b = 0 then (if a = 0 then NaN else if a > 0 then PInf else NInf) else Fin (a / b))"
| "divide_dbl (Fin a) y = Fin 0"
| "divide_dbl PInf (Fin b) = (if b \<ge> 0 then PInf else NInf)"
| "divide_dbl NInf (Fin b) = (if b \<ge> 0 then NInf else PInf)"
| "divide_dbl x y = NaN"

fun inverse_dbl :: "dbl \<Rightarrow> dbl" where
  "inverse_dbl (Fin a) = (if a = 0 then PInf else Fin (1 / a))"
| "inverse_dbl NaN = NaN"
| "inverse_dbl x = Fin 0"

fun abs_dbl :: "dbl \<Rightarrow> dbl" where
  "abs_dbl (Fin a) = Fin \<bar>a\<bar>"
| "abs_dbl NaN = NaN"
| "abs_dbl x = PInf"

fun less_dbl :: "dbl \<Rightarrow> dbl \<Rightarrow> bool" where
  "less_dbl NaN y = False"
| "less_dbl x NaN = False"
| "less_dbl (Fin a) (Fin b) = (a < b)"
| "less_dbl x NInf = False"
| "less_dbl PInf y = False"
| "less_dbl x y = True"

fun less_eq_dbl :: "dbl \<Rightarrow> dbl \<Rightarrow> bool" where
  "less_eq_dbl NaN y = False"
| "less_eq_dbl x NaN = False"
| "less_eq_dbl (Fin a) (Fin b) = (a \<le> b)"
| "less_eq_dbl NInf y = True"
| "less_eq_dbl x PInf = True"
| "less_eq_dbl x y = False"

instance ..

end

instantiation dbl :: minus
begin

definition minus_dbl :: "dbl \<Rightarrow> dbl \<Rightarrow> dbl" where
  "minus_dbl x y = x + (- y)"

instance ..

end

text \<open>The functions of \<^verbatim>\<open>math.h\<close> on these values.\<close>

fun sin_d :: "dbl \<Rightarrow> dbl" where
  "sin_d (Fin a) = Fin (sin a)"
| "sin_d x = NaN"

fun cos_d :: "dbl \<Rightarrow> dbl" where
  "cos_d (Fin a) = Fin (cos a)"
| "cos_d x = NaN"

fun tan_d :: "dbl \<Rightarrow> dbl" where
  "tan_d (Fin a) = Fin (tan a)"
| "tan_d x = NaN"

fun asin_d :: "dbl \<Rightarrow> dbl" where
  "asin_d (Fin a) = (if - 1 \<le> a \<and> a \<le> 1 then Fin (arcsin a) else NaN)"
| "asin_d x = NaN"


section \<open>The external over doubles with special values\<close>

text \<open>
  The same code read over \<^typ>\<open>dbl\<close>, definition by definition. In addition the store
  \<^verbatim>\<open>*out++ = inputSample\<close> converts the double to \<^verbatim>\<open>t_float\<close>; that type is declared in
  \<^verbatim>\<open>m_pd.h\<close>, so the conversion is the parameter \<open>store\<close>. The input samples and the
  sample rate are \<^verbatim>\<open>t_float\<close> values read into doubles, which changes no value.
\<close>

record dtape =
  x_f_d :: dbl
  x_sr_d :: dbl
  iirMidRollerA_d :: dbl
  iirMidRollerB_d :: dbl
  iirHeadBumpA_d :: dbl
  iirHeadBumpB_d :: dbl
  biquadA_d :: "nat \<Rightarrow> dbl"
  biquadB_d :: "nat \<Rightarrow> dbl"
  lastSample_d :: dbl
  flip_d :: int

definition spiral_saturate_d :: "dbl \<Rightarrow> dbl" where
  "spiral_saturate_d input0 =
    (let input1 = (if input0 > Fin 1.2533141373155 then Fin 1.2533141373155 else input0);
         input2 = (if input1 < - Fin 1.2533141373155 then - Fin 1.2533141373155 else input1);
         absInput = \<bar>input2\<bar>
     in if absInput = Fin 0.0 then Fin 0.0 else sin_d (input2 * absInput) / absInput)"

definition adclip_d :: "dbl \<Rightarrow> dbl \<Rightarrow> dbl \<times> dbl" where
  "adclip_d input0 last0 =
    (let last1 = (if last0 \<ge> Fin 0.99
                  then (if input0 < Fin 0.99
                        then (Fin 0.99 * Fin softness) + (input0 * (Fin 1.0 - Fin softness))
                        else Fin 0.99)
                  else last0);
         last2 = (if last1 \<le> - Fin 0.99
                  then (if input0 > - Fin 0.99
                        then (- Fin 0.99 * Fin softness) + (input0 * (Fin 1.0 - Fin softness))
                        else - Fin 0.99)
                  else last1);
         input1 = (if input0 > Fin 0.99
                   then (if last2 < Fin 0.99
                         then (Fin 0.99 * Fin softness) + (last2 * (Fin 1.0 - Fin softness))
                         else Fin 0.99)
                   else input0);
         input2 = (if input1 < - Fin 0.99
                   then (if last2 > - Fin 0.99
                         then (- Fin 0.99 * Fin softness) + (last2 * (Fin 1.0 - Fin softness))
                         else - Fin 0.99)
                   else input1)
     in (input2, input2))"

definition tape_new_d :: "dtape \<Rightarrow> dtape" where
  "tape_new_d x =
    x\<lparr>x_f_d := Fin 0, iirMidRollerA_d := Fin 0.0, iirMidRollerB_d := Fin 0.0,
      iirHeadBumpA_d := Fin 0.0, iirHeadBumpB_d := Fin 0.0, lastSample_d := Fin 0.0,
      flip_d := 0,
      biquadA_d := (\<lambda>i. if i < 9 then Fin 0.0 else biquadA_d x i),
      biquadB_d := (\<lambda>i. if i < 9 then Fin 0.0 else biquadB_d x i)\<rparr>"

definition tape_dsp_d :: "dtape \<Rightarrow> dbl \<Rightarrow> dtape" where
  "tape_dsp_d x s_sr = x\<lparr>x_sr_d := s_sr\<rparr>"

definition overallscale_d :: "dtape \<Rightarrow> dbl" where
  "overallscale_d x = x_sr_d x / Fin 44100.0"

definition RollAmount_d :: "dtape \<Rightarrow> dbl" where
  "RollAmount_d x = (Fin 1.0 - Fin softness) / overallscale_d x"

definition HeadBumpFreq_d :: "dtape \<Rightarrow> dbl" where
  "HeadBumpFreq_d x = Fin 0.12 / overallscale_d x"

definition biquadFreq_d :: "dtape \<Rightarrow> dbl" where
  "biquadFreq_d x = Fin 0.0072 / overallscale_d x"

definition coefK_d :: "dtape \<Rightarrow> dbl" where
  "coefK_d x = tan_d (Fin M_PI * biquadFreq_d x)"

definition coef_norm_d :: "dtape \<Rightarrow> dbl" where
  "coef_norm_d x = Fin 1.0 / (Fin 1.0 + coefK_d x / Fin biquadQ + coefK_d x * coefK_d x)"

definition coef_a0_d :: "dtape \<Rightarrow> dbl" where
  "coef_a0_d x = coefK_d x / Fin biquadQ * coef_norm_d x"

definition coef_a1_d :: "dtape \<Rightarrow> dbl" where
  "coef_a1_d x = Fin 0.0"

definition coef_a2_d :: "dtape \<Rightarrow> dbl" where
  "coef_a2_d x = - coef_a0_d x"

definition coef_b1_d :: "dtape \<Rightarrow> dbl" where
  "coef_b1_d x = Fin 2.0 * (coefK_d x * coefK_d x - Fin 1.0) * coef_norm_d x"

definition coef_b2_d :: "dtape \<Rightarrow> dbl" where
  "coef_b2_d x = (Fin 1.0 - coefK_d x / Fin biquadQ + coefK_d x * coefK_d x) * coef_norm_d x"

definition tape_setup_d :: "dtape \<Rightarrow> dtape" where
  "tape_setup_d x =
    x\<lparr>biquadA_d := (biquadA_d x)(2 := coef_a0_d x, 3 := coef_a1_d x, 4 := coef_a2_d x,
                                  5 := coef_b1_d x, 6 := coef_b2_d x),
      biquadB_d := (biquadB_d x)(2 := coef_a0_d x, 3 := coef_a1_d x, 4 := coef_a2_d x,
                                  5 := coef_b1_d x, 6 := coef_b2_d x)\<rparr>"

definition tape_sideA_d :: "dbl \<Rightarrow> dbl \<Rightarrow> dtape \<Rightarrow> dbl \<Rightarrow> dtape \<times> dbl" where
  "tape_sideA_d roll bump x inputSample =
    (let midRoller = (iirMidRollerA_d x * (Fin 1.0 - roll)) + (inputSample * roll);
         HighsSample = inputSample - midRoller;
         hb1 = iirHeadBumpA_d x + (inputSample * Fin 0.05);
         hb2 = hb1 - (hb1 * hb1 * hb1 * bump);
         hb3 = sin_d hb2;
         bq = biquadA_d x;
         tempSample = (hb3 * bq 2) + bq 7;
         bq1 = bq(7 := (hb3 * bq 3) - (tempSample * bq 5) + bq 8);
         bq2 = bq1(8 := (hb3 * bq1 4) - (tempSample * bq1 6));
         hb4 = tempSample;
         hb5 = (if hb4 > Fin 1.0 then Fin 1.0 else hb4);
         hb6 = (if hb5 < - Fin 1.0 then - Fin 1.0 else hb5)
     in (x\<lparr>iirMidRollerA_d := midRoller, iirHeadBumpA_d := asin_d hb6, biquadA_d := bq2\<rparr>,
         HighsSample))"

definition tape_sideB_d :: "dbl \<Rightarrow> dbl \<Rightarrow> dtape \<Rightarrow> dbl \<Rightarrow> dtape \<times> dbl" where
  "tape_sideB_d roll bump x inputSample =
    (let midRoller = (iirMidRollerB_d x * (Fin 1.0 - roll)) + (inputSample * roll);
         HighsSample = inputSample - midRoller;
         hb1 = iirHeadBumpB_d x + (inputSample * Fin 0.05);
         hb2 = hb1 - (hb1 * hb1 * hb1 * bump);
         hb3 = sin_d hb2;
         bq = biquadB_d x;
         tempSample = (hb3 * bq 2) + bq 7;
         bq1 = bq(7 := (hb3 * bq 3) - (tempSample * bq 5) + bq 8);
         bq2 = bq1(8 := (hb3 * bq1 4) - (tempSample * bq1 6));
         hb4 = tempSample;
         hb5 = (if hb4 > Fin 1.0 then Fin 1.0 else hb4);
         hb6 = (if hb5 < - Fin 1.0 then - Fin 1.0 else hb5)
     in (x\<lparr>iirMidRollerB_d := midRoller, iirHeadBumpB_d := asin_d hb6, biquadB_d := bq2\<rparr>,
         HighsSample))"

definition tape_filters_d :: "dbl \<Rightarrow> dbl \<Rightarrow> dtape \<Rightarrow> dbl \<Rightarrow> dtape \<times> dbl" where
  "tape_filters_d roll bump x inputSample =
    (let (x1, HighsSample) =
           (if flip_d x \<noteq> 0 then tape_sideA_d roll bump x inputSample
            else tape_sideB_d roll bump x inputSample)
     in (x1\<lparr>flip_d := (if flip_d x1 = 0 then 1 else 0)\<rparr>, HighsSample))"

definition tape_soften_d :: "dbl \<Rightarrow> dbl \<Rightarrow> dbl" where
  "tape_soften_d HighsSample inputSample =
    (let soften1 = \<bar>HighsSample\<bar> * Fin 1.57079633;
         soften2 = (if soften1 > Fin 1.57079633 then Fin 1.57079633 else soften1);
         applySoften = Fin 1.0 - cos_d soften2;
         input1 = (if HighsSample > Fin 0 then inputSample - applySoften else inputSample);
         input2 = (if HighsSample < Fin 0 then input1 + applySoften else input1)
     in input2)"

definition restrain_d :: "dbl \<Rightarrow> dbl \<Rightarrow> dbl" where
  "restrain_d suppress hb =
    (let hb1 = (if hb > suppress then hb - suppress else hb);
         hb2 = (if hb1 < - suppress then hb1 + suppress else hb1)
     in hb2)"

definition tape_suppress_d :: "dbl \<Rightarrow> dbl" where
  "tape_suppress_d inputSample = (Fin 1.0 - \<bar>inputSample\<bar>) * Fin 0.00013"

definition tape_restrain_d :: "dbl \<Rightarrow> dtape \<Rightarrow> dtape" where
  "tape_restrain_d suppress x =
    x\<lparr>iirHeadBumpA_d := restrain_d suppress (iirHeadBumpA_d x),
      iirHeadBumpB_d := restrain_d suppress (iirHeadBumpB_d x)\<rparr>"

definition hard_clip_d :: "dbl \<Rightarrow> dbl" where
  "hard_clip_d inputSample =
    (let input1 = (if inputSample > Fin 0.99 then Fin 0.99 else inputSample);
         input2 = (if input1 < - Fin 0.99 then - Fin 0.99 else input1)
     in input2)"

text \<open>
  The body of the loop: the value written to \<^verbatim>\<open>*out++\<close> is the clipped sample converted
  by \<open>store\<close>.
\<close>

definition tape_sample_d ::
  "(dbl \<Rightarrow> dbl) \<Rightarrow> dbl \<Rightarrow> dbl \<Rightarrow> dtape \<Rightarrow> dbl \<Rightarrow> dtape \<times> dbl" where
  "tape_sample_d store roll bump x sample =
    (let input0 = sample * Fin INPUT_GAIN;
         (x1, HighsSample) = tape_filters_d roll bump x input0;
         input1 = tape_soften_d HighsSample input0;
         input2 = spiral_saturate_d input1;
         x2 = tape_restrain_d (tape_suppress_d input2) x1;
         input3 = input2 + ((iirHeadBumpA_d x2 + iirHeadBumpB_d x2) * Fin HEAD_BUMP);
         (input4, last) = adclip_d input3 (lastSample_d x2);
         x3 = x2\<lparr>lastSample_d := last\<rparr>
     in (x3, store (hard_clip_d input4)))"

fun tape_loop_d ::
  "(dbl \<Rightarrow> dbl) \<Rightarrow> dbl \<Rightarrow> dbl \<Rightarrow> dtape \<Rightarrow> dbl list \<Rightarrow> dtape \<times> dbl list" where
  "tape_loop_d store roll bump x [] = (x, [])"
| "tape_loop_d store roll bump x (sample # rest) =
    (let (x1, y) = tape_sample_d store roll bump x sample;
         (x2, ys) = tape_loop_d store roll bump x1 rest
     in (x2, y # ys))"

definition tape_perform_d :: "(dbl \<Rightarrow> dbl) \<Rightarrow> dtape \<Rightarrow> dbl list \<Rightarrow> dtape \<times> dbl list" where
  "tape_perform_d store x block =
    tape_loop_d store (RollAmount_d x) (HeadBumpFreq_d x) (tape_setup_d x) block"

datatype event_d = Dsp_d dbl | Perform_d "dbl list"

fun tape_event_d :: "(dbl \<Rightarrow> dbl) \<Rightarrow> dtape \<Rightarrow> event_d \<Rightarrow> dtape" where
  "tape_event_d store x (Dsp_d s_sr) = tape_dsp_d x s_sr"
| "tape_event_d store x (Perform_d block) = fst (tape_perform_d store x block)"

fun tape_events_d :: "(dbl \<Rightarrow> dbl) \<Rightarrow> dtape \<Rightarrow> event_d list \<Rightarrow> dtape" where
  "tape_events_d store x [] = x"
| "tape_events_d store x (e # es) = tape_events_d store (tape_event_d store x e) es"

subsection \<open>Finite objects and finite histories\<close>

text \<open>An object, a block and an event all of whose values are finite.\<close>

definition embed :: "tape \<Rightarrow> dtape" where
  "embed x =
    \<lparr>x_f_d = Fin (x_f x), x_sr_d = Fin (x_sr x),
     iirMidRollerA_d = Fin (iirMidRollerA x), iirMidRollerB_d = Fin (iirMidRollerB x),
     iirHeadBumpA_d = Fin (iirHeadBumpA x), iirHeadBumpB_d = Fin (iirHeadBumpB x),
     biquadA_d = (\<lambda>i. Fin (biquadA x i)), biquadB_d = (\<lambda>i. Fin (biquadB x i)),
     lastSample_d = Fin (lastSample x), flip_d = flip x\<rparr>"

fun embed_event :: "event \<Rightarrow> event_d" where
  "embed_event (Dsp s_sr) = Dsp_d (Fin s_sr)"
| "embed_event (Perform block) = Perform_d (map Fin block)"

text \<open>
  The set-up of a block divides by the sample rate and by \<open>1 + K / Q + K * K\<close>; the
  coefficients are finite when neither is 0.
\<close>

definition rate_ok :: "tape \<Rightarrow> bool" where
  "rate_ok x = (x_sr x \<noteq> 0 \<and> 1.0 + coefK x / biquadQ + coefK x * coefK x \<noteq> 0)"

text \<open>
  A block as a host hands it over: the sample rate is at least 636, so that the filter
  frequency \<open>0.0072 * 44100 / x_sr\<close> is below one half and \<open>K\<close> is the tangent of an
  angle between 0 and \<open>pi / 2\<close>, and every sample is within the range of binary32.
\<close>

definition block_ok :: "tape \<Rightarrow> real list \<Rightarrow> bool" where
  "block_ok x block = (636 \<le> x_sr x \<and> (\<forall>v \<in> set block. \<bar>v\<bar> < 2 ^ 128))"

text \<open>A history in which every block is of this kind.\<close>

fun session_ok :: "tape \<Rightarrow> event list \<Rightarrow> bool" where
  "session_ok x [] = True"
| "session_ok x (Dsp s_sr # es) = session_ok (tape_dsp x s_sr) es"
| "session_ok x (Perform block # es) = (block_ok x block \<and> session_ok (fst (tape_perform x block)) es)"

subsection \<open>Two conversions to \<^verbatim>\<open>t_float\<close>\<close>

text \<open>
  Modelled from the spec: the type \<^verbatim>\<open>t_float\<close> of the output buffer is declared in
  \<^verbatim>\<open>m_pd.h\<close>, which is not among the sources; the spec has the block routine return a
  sequence of float. With \<^verbatim>\<open>t_float\<close> a double, the store keeps the value.
\<close>

definition store_double :: "dbl \<Rightarrow> dbl" where
  "store_double v = v"

text \<open>Rounding to the nearest integer, ties to the even one.\<close>

definition rne :: "real \<Rightarrow> int" where
  "rne r =
    (let f = \<lfloor>r\<rfloor>; d = r - real_of_int f
     in if d < 1 / 2 then f else if d > 1 / 2 then f + 1 else if even f then f else f + 1)"

text \<open>
  Modelled from the spec: \<^verbatim>\<open>t_float\<close> is declared in \<^verbatim>\<open>m_pd.h\<close>, which is not among the
  sources; the spec has the block routine return a sequence of float. With \<^verbatim>\<open>t_float\<close>
  a \<^verbatim>\<open>float\<close>, as in Pd's default build, the store rounds to the nearest binary32 value,
  ties to even: 24 significant bits, the least exponent -126, infinite from \<open>2 ^ 128\<close> on.
\<close>

definition store_float :: "dbl \<Rightarrow> dbl" where
  "store_float v =
    (case v of
       Fin r \<Rightarrow>
         (if r = 0 then Fin 0
          else let e = max \<lfloor>log 2 \<bar>r\<bar>\<rfloor> (- 126);
                   ulp = 2 powr (real_of_int e - 23);
                   q = real_of_int (rne (r / ulp)) * ulp
               in if \<bar>q\<bar> \<ge> 2 ^ 128 then (if r > 0 then PInf else NInf) else Fin q)
     | PInf \<Rightarrow> PInf
     | NInf \<Rightarrow> NInf
     | NaN \<Rightarrow> NaN)"

section \<open>Facts about the single stages\<close>

lemma hard_clip_bounds: "- 0.99 \<le> hard_clip v \<and> hard_clip v \<le> 0.99"
  by (simp add: hard_clip_def Let_def)

lemma softness_range: "0 < softness" "softness < 1"
  by (simp_all add: softness_def)

lemma blend_above:
  fixes c a s lo :: real
  assumes "0 < s" "s < 1" "lo \<le> c" "lo < a"
  shows "lo < c * s + a * (1 - s)"
proof -
  have "lo * s \<le> c * s"
    using assms by (simp add: mult_right_mono)
  moreover have "lo * (1 - s) < a * (1 - s)"
    using assms by simp
  moreover have "lo * s + lo * (1 - s) = lo"
    by (simp add: algebra_simps)
  ultimately show ?thesis by linarith
qed

lemma blend_below:
  fixes c a s hi :: real
  assumes "0 < s" "s < 1" "c \<le> hi" "a < hi"
  shows "c * s + a * (1 - s) < hi"
proof -
  have "c * s \<le> hi * s"
    using assms by (simp add: mult_right_mono)
  moreover have "a * (1 - s) < hi * (1 - s)"
    using assms by simp
  moreover have "hi * s + hi * (1 - s) = hi"
    by (simp add: algebra_simps)
  ultimately show ?thesis by linarith
qed

lemma adclip_bounds: "- 0.99 \<le> fst (adclip v m) \<and> fst (adclip v m) \<le> 0.99"
proof -
  define l1 where "l1 = (if m \<ge> 0.99 then (if v < 0.99 then (0.99 * softness) + (v * (1.0 - softness)) else 0.99) else m)"
  define l2 where "l2 = (if l1 \<le> - 0.99 then (if v > - 0.99 then (- 0.99 * softness) + (v * (1.0 - softness)) else - 0.99) else l1)"
  define i1 where "i1 = (if v > 0.99 then (if l2 < 0.99 then (0.99 * softness) + (l2 * (1.0 - softness)) else 0.99) else v)"
  define i2 where "i2 = (if i1 < - 0.99 then (if l2 > - 0.99 then (- 0.99 * softness) + (l2 * (1.0 - softness)) else - 0.99) else i1)"
  have r: "fst (adclip v m) = i2"
    by (simp add: adclip_def Let_def i2_def i1_def l2_def l1_def)
  note above = blend_above [OF softness_range]
  note below = blend_below [OF softness_range]
  have up: "l2 > - 0.99" if "v > 0.99"
    using above [of "- 0.99" "- 0.99" v] that by (simp add: l2_def)
  have l1_lt: "l1 < 0.99" if "v < - 0.99"
    using below [of "0.99" "0.99" v] that by (simp add: l1_def)
  have dn: "l2 < 0.99" if "v < - 0.99"
    using l1_lt [OF that] that by (simp add: l2_def)
  have i1_hi: "- 0.99 < i1 \<and> i1 \<le> 0.99" if "v > 0.99"
    using above [of "- 0.99" "0.99" l2] below [of "0.99" "0.99" l2] up [OF that] that
    by (cases "l2 < 0.99") (simp_all add: i1_def)
  consider "v > 0.99" | "v < - 0.99" | "- 0.99 \<le> v" "v \<le> 0.99" by linarith
  then have "- 0.99 \<le> i2 \<and> i2 \<le> 0.99"
  proof cases
    case 1
    then show ?thesis using i1_hi [OF 1] by (simp add: i2_def)
  next
    case 2
    then have "i1 = v" by (simp add: i1_def)
    then show ?thesis
      using above [of "- 0.99" "- 0.99" l2] below [of "- 0.99" "0.99" l2] dn [OF 2] 2
      by (cases "l2 > - 0.99") (simp_all add: i2_def)
  next
    case 3
    then show ?thesis by (simp add: i2_def i1_def)
  qed
  then show ?thesis by (simp add: r)
qed

lemma adclip_snd: "snd (adclip v m) = fst (adclip v m)"
  by (simp add: adclip_def Let_def)

lemma spiral_odd: "spiral_saturate (- v) = - spiral_saturate v"
  by (simp add: spiral_saturate_def Let_def)

lemma spiral_zero: "spiral_saturate 0 = 0"
  by (simp add: spiral_saturate_def)

lemma sin_sq_le: "\<bar>sin (v * \<bar>v\<bar>)\<bar> \<le> \<bar>v\<bar> * \<bar>v\<bar>" for v :: real
  using abs_sin_x_le_abs_x [of "v * \<bar>v\<bar>"] by (simp add: abs_mult)

lemma spiral_core:
  fixes c :: real
  assumes "c \<noteq> 0"
  shows "\<bar>sin (c * \<bar>c\<bar>) / \<bar>c\<bar>\<bar> \<le> \<bar>c\<bar>" "\<bar>sin (c * \<bar>c\<bar>) / \<bar>c\<bar>\<bar> \<le> 1"
proof -
  have pos: "0 < \<bar>c\<bar>" using assms by simp
  have "\<bar>sin (c * \<bar>c\<bar>)\<bar> \<le> \<bar>c\<bar> * \<bar>c\<bar>" by (rule sin_sq_le)
  then show a: "\<bar>sin (c * \<bar>c\<bar>) / \<bar>c\<bar>\<bar> \<le> \<bar>c\<bar>"
    using pos by (simp add: field_simps)
  show "\<bar>sin (c * \<bar>c\<bar>) / \<bar>c\<bar>\<bar> \<le> 1"
  proof (cases "\<bar>c\<bar> \<le> 1")
    case True
    then show ?thesis using a by linarith
  next
    case False
    have "\<bar>sin (c * \<bar>c\<bar>)\<bar> \<le> 1" by (rule abs_sin_le_one)
    then have "\<bar>sin (c * \<bar>c\<bar>)\<bar> \<le> \<bar>c\<bar>" using False by linarith
    then show ?thesis using pos by (simp add: field_simps)
  qed
qed

lemma spiral_le_one: "\<bar>spiral_saturate v\<bar> \<le> 1"
  using spiral_core(2) by (simp add: spiral_saturate_def Let_def)

lemma spiral_le_abs: "\<bar>spiral_saturate v\<bar> \<le> \<bar>v\<bar>"
proof -
  define c where "c = (if (if v > 1.2533141373155 then 1.2533141373155 else v) < - 1.2533141373155
     then - 1.2533141373155 else (if v > 1.2533141373155 then 1.2533141373155 else v))"
  have cv: "\<bar>c\<bar> \<le> \<bar>v\<bar>" by (simp add: c_def)
  have "spiral_saturate v = (if \<bar>c\<bar> = 0 then 0 else sin (c * \<bar>c\<bar>) / \<bar>c\<bar>)"
    by (simp add: spiral_saturate_def Let_def c_def)
  then have "\<bar>spiral_saturate v\<bar> \<le> \<bar>c\<bar>"
    using spiral_core(1) [of c] by simp
  then show ?thesis using cv by linarith
qed

lemma spiral_isCont_0: "isCont spiral_saturate 0"
proof -
  have "(spiral_saturate \<longlongrightarrow> 0) (at 0)"
  proof (rule tendsto_0_le [where f = "\<lambda>x. \<bar>x\<bar>" and K = 1])
    have "((\<lambda>x::real. x) \<longlongrightarrow> 0) (at 0)"
      by (rule tendsto_ident_at)
    then show "((\<lambda>x::real. \<bar>x\<bar>) \<longlongrightarrow> 0) (at 0)"
      by (rule tendsto_rabs_zero)
    show "\<forall>\<^sub>F x in at 0. norm (spiral_saturate x) \<le> norm \<bar>x\<bar> * 1"
      by (simp add: spiral_le_abs)
  qed
  then show ?thesis by (simp add: isCont_def spiral_zero)
qed

lemma suppress_range: "0 \<le> tape_suppress (spiral_saturate v)" "tape_suppress (spiral_saturate v) \<le> 0.00013"
  using spiral_le_one [of v] by (simp_all add: tape_suppress_def)

lemma restrain_cases:
  assumes "0 \<le> d"
  shows "restrain d hb = (if hb > d then hb - d else if hb < - d then hb + d else hb)"
  using assms by (simp add: restrain_def Let_def)

lemma restrain_abs: "0 \<le> d \<Longrightarrow> \<bar>restrain d hb\<bar> \<le> \<bar>hb\<bar>"
  by (simp add: restrain_cases)

lemma hard_clip_id: "- 0.99 \<le> v \<Longrightarrow> v \<le> 0.99 \<Longrightarrow> hard_clip v = v"
  by (simp add: hard_clip_def Let_def)

section \<open>The final hard clip bounds every output\<close>

lemma tape_sample_out: "\<exists>w. snd (tape_sample roll bump x v) = hard_clip w"
  unfolding tape_sample_def Let_def split_beta snd_conv by (rule exI) (rule refl)

lemma tape_sample_out_bounds:
  "- 0.99 \<le> snd (tape_sample roll bump x v) \<and> snd (tape_sample roll bump x v) \<le> 0.99"
proof -
  obtain w where "snd (tape_sample roll bump x v) = hard_clip w"
    using tape_sample_out by blast
  then show ?thesis using hard_clip_bounds [of w] by simp
qed

lemma tape_loop_length: "length (snd (tape_loop roll bump x block)) = length block"
  by (induction block arbitrary: x) (simp_all add: split_beta Let_def)

lemma tape_loop_bounds:
  "y \<in> set (snd (tape_loop roll bump x block)) \<Longrightarrow> - 0.99 \<le> y \<and> y \<le> 0.99"
proof (induction block arbitrary: x)
  case Nil
  then show ?case by simp
next
  case (Cons v rest)
  then show ?case
    using tape_sample_out_bounds [of roll bump x v]
    by (auto simp: split_beta Let_def)
qed

text \<open>
  In the real-valued reading every sample that \<^const>\<open>tape_perform\<close> writes lies between
  -0.99 and 0.99, and one sample is written per input sample.
\<close>

lemma perform_output_bounded:
  "length (snd (tape_perform x block)) = length block \<and>
   (\<forall>y \<in> set (snd (tape_perform x block)). - 0.99 \<le> y \<and> y \<le> 0.99)"
  using tape_loop_bounds by (simp add: tape_perform_def tape_loop_length)

section \<open>Splitting a block\<close>

lemma tape_loop_append:
  "tape_loop roll bump x (xs @ ys) =
    (let (x1, o1) = tape_loop roll bump x xs;
         (x2, o2) = tape_loop roll bump x1 ys
     in (x2, o1 @ o2))"
  by (induction xs arbitrary: x) (simp_all add: split_beta Let_def)

lemma tape_sample_x_sr: "x_sr (fst (tape_sample roll bump x v)) = x_sr x"
  by (simp add: tape_sample_def tape_filters_def tape_sideA_def tape_sideB_def tape_restrain_def
      Let_def split_beta)

lemma tape_sample_coefs:
  "i \<noteq> 7 \<Longrightarrow> i \<noteq> 8 \<Longrightarrow>
   biquadA (fst (tape_sample roll bump x v)) i = biquadA x i \<and>
   biquadB (fst (tape_sample roll bump x v)) i = biquadB x i"
  by (simp add: tape_sample_def tape_filters_def tape_sideA_def tape_sideB_def tape_restrain_def
      Let_def split_beta)

lemma tape_loop_x_sr: "x_sr (fst (tape_loop roll bump x block)) = x_sr x"
  by (induction block arbitrary: x) (simp_all add: split_beta Let_def tape_sample_x_sr)

lemma tape_loop_coefs:
  "i \<noteq> 7 \<Longrightarrow> i \<noteq> 8 \<Longrightarrow>
   biquadA (fst (tape_loop roll bump x block)) i = biquadA x i \<and>
   biquadB (fst (tape_loop roll bump x block)) i = biquadB x i"
  by (induction block arbitrary: x) (simp_all add: split_beta Let_def tape_sample_coefs)

lemma coefs_cong:
  assumes "x_sr y = x_sr x"
  shows "RollAmount y = RollAmount x" "HeadBumpFreq y = HeadBumpFreq x"
    "coef_a0 y = coef_a0 x" "coef_a1 y = coef_a1 x" "coef_a2 y = coef_a2 x"
    "coef_b1 y = coef_b1 x" "coef_b2 y = coef_b2 x"
  using assms
  by (simp_all add: RollAmount_def HeadBumpFreq_def coef_a0_def coef_a1_def coef_a2_def
      coef_b1_def coef_b2_def coef_norm_def coefK_def biquadFreq_def overallscale_def)

lemma tape_setup_idem:
  assumes "x_sr y = x_sr x"
    and "biquadA y 2 = coef_a0 x" "biquadA y 3 = coef_a1 x" "biquadA y 4 = coef_a2 x"
      "biquadA y 5 = coef_b1 x" "biquadA y 6 = coef_b2 x"
    and "biquadB y 2 = coef_a0 x" "biquadB y 3 = coef_a1 x" "biquadB y 4 = coef_a2 x"
      "biquadB y 5 = coef_b1 x" "biquadB y 6 = coef_b2 x"
  shows "tape_setup y = y"
proof -
  note c = coefs_cong [OF assms(1)]
  have "(biquadA y)(2 := coef_a0 y, 3 := coef_a1 y, 4 := coef_a2 y, 5 := coef_b1 y, 6 := coef_b2 y)
      = biquadA y"
    using assms(2-6) by (auto simp: fun_eq_iff c)
  moreover have "(biquadB y)(2 := coef_a0 y, 3 := coef_a1 y, 4 := coef_a2 y, 5 := coef_b1 y, 6 := coef_b2 y)
      = biquadB y"
    using assms(7-11) by (auto simp: fun_eq_iff c)
  ultimately show ?thesis by (simp add: tape_setup_def)
qed

lemma tape_setup_after_loop:
  "tape_setup (fst (tape_loop roll bump (tape_setup x) block)) = fst (tape_loop roll bump (tape_setup x) block)"
proof (rule tape_setup_idem [where x = x])
  show "x_sr (fst (tape_loop roll bump (tape_setup x) block)) = x_sr x"
    by (simp add: tape_loop_x_sr tape_setup_def)
qed (simp_all add: tape_loop_coefs, simp_all add: tape_setup_def)

lemma tape_perform_x_sr: "x_sr (fst (tape_perform x block)) = x_sr x"
  by (simp add: tape_perform_def tape_loop_x_sr tape_setup_def)

lemma tape_perform_append:
  "tape_perform x (xs @ ys) =
    (let (x1, o1) = tape_perform x xs;
         (x2, o2) = tape_perform x1 ys
     in (x2, o1 @ o2))"
proof -
  let ?x1 = "fst (tape_loop (RollAmount x) (HeadBumpFreq x) (tape_setup x) xs)"
  have "x_sr ?x1 = x_sr x" by (simp add: tape_loop_x_sr tape_setup_def)
  then have "RollAmount ?x1 = RollAmount x" "HeadBumpFreq ?x1 = HeadBumpFreq x"
    by (rule coefs_cong)+
  then show ?thesis
    by (simp add: tape_perform_def tape_loop_append split_beta Let_def tape_setup_after_loop)
qed

lemma tape_blocks_concat_out: "snd (tape_blocks x blocks) = snd (tape_perform x (concat blocks))"
proof (induction blocks arbitrary: x)
  case Nil
  then show ?case by (simp add: tape_perform_def)
next
  case (Cons b rest)
  then show ?case by (simp add: tape_perform_append split_beta Let_def)
qed

lemma tape_blocks_concat_state:
  "blocks \<noteq> [] \<Longrightarrow> fst (tape_blocks x blocks) = fst (tape_perform x (concat blocks))"
proof (induction blocks arbitrary: x)
  case Nil
  then show ?case by simp
next
  case (Cons b rest)
  show ?case
  proof (cases "rest = []")
    case True
    then show ?thesis by (simp add: split_beta)
  next
    case False
    then show ?thesis using Cons.IH [OF False]
      by (simp add: tape_perform_append split_beta Let_def)
  qed
qed

lemma concat_chunks:
  "concat (map (\<lambda>k. take n (drop (n * k) xs)) [0..<m]) = take (n * m) xs"
proof (induction m)
  case 0
  then show ?case by simp
next
  case (Suc m)
  have "take (n * m) xs @ take n (drop (n * m) xs) = take (n * m + n) xs"
    by (simp add: take_add)
  then show ?case using Suc by (simp add: add.commute)
qed

text \<open>
  Claim C2: for any object, a block of 1000 samples processed by one call of
  \<^const>\<open>tape_perform\<close> gives the same output, sample by sample, as the same samples
  processed by ten consecutive calls on blocks of 100; the object afterwards is the
  same too.
\<close>

theorem block_size_invariance:
  assumes "length block = 1000"
  shows "snd (tape_blocks x (map (\<lambda>k. take 100 (drop (100 * k) block)) [0..<10]))
           = snd (tape_perform x block)
       \<and> fst (tape_blocks x (map (\<lambda>k. take 100 (drop (100 * k) block)) [0..<10]))
           = fst (tape_perform x block)"
proof -
  let ?bs = "map (\<lambda>k. take 100 (drop (100 * k) block)) [0..<10]"
  have c: "concat ?bs = block"
    using concat_chunks [of 100 block 10] assms by simp
  have "?bs \<noteq> []" by simp
  then show ?thesis
    using tape_blocks_concat_out [of x ?bs] tape_blocks_concat_state [of ?bs x] c
    by simp
qed

theorem block_size_invariance_witness:
  "snd (tape_blocks (tape_dsp (tape_new tape_zero) 48000)
          (map (\<lambda>k. take 100 (drop (100 * k) (map real [0..<1000]))) [0..<10]))
     = snd (tape_perform (tape_dsp (tape_new tape_zero) 48000) (map real [0..<1000]))"
proof -
  have l: "length (map real [0..<1000]) = 1000"
    by (simp only: length_map length_upt diff_zero)
  show ?thesis
    by (rule conjunct1 [OF block_size_invariance [OF l]])
qed

section \<open>The clipper on a sequence\<close>

lemma adclip_one:
  assumes "0 \<le> m" "m < 0.99"
  shows "adclip 1 m = (0.99 * softness + m * (1 - softness), 0.99 * softness + m * (1 - softness))"
proof -
  have "- 0.99 < 0.99 * softness + m * (1 - softness)"
    using blend_above [OF softness_range, of "- 0.99" "0.99" m] assms by simp
  then show ?thesis using assms by (simp add: adclip_def Let_def)
qed

lemma adclip_one_range:
  assumes "0 \<le> m" "m < 0.99"
  shows "0 \<le> 0.99 * softness + m * (1 - softness)" "0.99 * softness + m * (1 - softness) < 0.99"
proof -
  show "0 \<le> 0.99 * softness + m * (1 - softness)"
    using assms softness_range by simp
  show "0.99 * softness + m * (1 - softness) < 0.99"
    using blend_below [OF softness_range, of "0.99" "0.99" m] assms by simp
qed

lemma blend_gap: "c - (c * s + m * (1 - s)) = (c - m) * (1 - s)" for c s m :: real
  by (simp add: algebra_simps)

lemma adclip_seq_ones:
  assumes "0 \<le> m" "m < 0.99"
  shows "fst (adclip_seq m (replicate n 1)) = 0.99 - (0.99 - m) * (1 - softness) ^ n"
  using assms
proof (induction n arbitrary: m)
  case 0
  then show ?case by simp
next
  case (Suc n)
  let ?b = "0.99 * softness + m * (1 - softness)"
  have "fst (adclip_seq m (replicate (Suc n) 1)) = fst (adclip_seq ?b (replicate n 1))"
    using adclip_one [OF Suc.prems] by (simp add: split_beta Let_def)
  also have "\<dots> = 0.99 - (0.99 - ?b) * (1 - softness) ^ n"
    using adclip_one_range [OF Suc.prems] by (rule Suc.IH)
  also have "0.99 - ?b = (0.99 - m) * (1 - softness)"
    by (rule blend_gap)
  finally show ?case by (simp add: mult.assoc)
qed

lemma adclip_seq_bounds:
  "y \<in> set (snd (adclip_seq m block)) \<Longrightarrow> - 0.99 \<le> y \<and> y \<le> 0.99"
proof (induction block arbitrary: m)
  case Nil
  then show ?case by simp
next
  case (Cons v rest)
  then show ?case
    using adclip_bounds [of v m] by (auto simp: split_beta Let_def)
qed

lemma adclip_seq_memory:
  "- 0.99 \<le> m \<Longrightarrow> m \<le> 0.99 \<Longrightarrow>
   - 0.99 \<le> fst (adclip_seq m block) \<and> fst (adclip_seq m block) \<le> 0.99"
proof (induction block arbitrary: m)
  case Nil
  then show ?case by simp
next
  case (Cons v rest)
  have "- 0.99 \<le> snd (adclip v m) \<and> snd (adclip v m) \<le> 0.99"
    using adclip_bounds [of v m] by (simp add: adclip_snd)
  then show ?case
    using Cons.IH [of "snd (adclip v m)"] by (simp add: split_beta Let_def)
qed

text \<open>
  Claim C3: for any finite sequence fed to \<^const>\<open>adclip\<close> from the memory 0, every
  returned value lies strictly between -1 and 1; fed the constant 1, the memory stays
  strictly below 0.99 after any number of samples and converges to 0.99.
\<close>

theorem clipper_bounded:
  "(\<forall>y \<in> set (snd (adclip_seq 0 block)). - 1 < y \<and> y < 1) \<and>
   (\<forall>n. fst (adclip_seq 0 (replicate n 1)) < 0.99) \<and>
   (\<lambda>n. fst (adclip_seq 0 (replicate n 1))) \<longlonglongrightarrow> 0.99"
proof (intro conjI ballI allI)
  fix y assume "y \<in> set (snd (adclip_seq 0 block))"
  then have "- 0.99 \<le> y \<and> y \<le> 0.99" by (rule adclip_seq_bounds)
  then show "- 1 < y" "y < 1" by simp_all
next
  have form: "fst (adclip_seq 0 (replicate n 1)) = 0.99 - 0.99 * (1 - softness) ^ n" for n
    using adclip_seq_ones [of 0 n] by simp
  fix n
  have "0 < (1 - softness) ^ n" using softness_range by simp
  then show "fst (adclip_seq 0 (replicate n 1)) < 0.99" by (simp add: form)
  have p: "(\<lambda>n. (1 - softness) ^ n) \<longlonglongrightarrow> 0"
    by (rule LIMSEQ_realpow_zero) (use softness_range in simp_all)
  have "(\<lambda>n. 0.99 - 0.99 * (1 - softness) ^ n) \<longlonglongrightarrow> 0.99 - 0.99 * 0"
    by (rule tendsto_diff [OF tendsto_const tendsto_mult [OF tendsto_const p]])
  then show "(\<lambda>n. fst (adclip_seq 0 (replicate n 1))) \<longlonglongrightarrow> 0.99"
    by (simp add: form)
qed

theorem clipper_bounded_witness:
  "- 1 < hd (snd (adclip_seq 0 [1, 1, 1])) \<and> hd (snd (adclip_seq 0 [1, 1, 1])) < 1 \<and>
   fst (adclip_seq 0 (replicate 3 1)) < 0.99"
proof -
  note b = clipper_bounded [of "[1, 1, 1]"]
  have "snd (adclip_seq 0 [1, 1, 1]) \<noteq> []" by (simp add: split_beta Let_def)
  then have "hd (snd (adclip_seq 0 [1, 1, 1])) \<in> set (snd (adclip_seq 0 [1, 1, 1]))"
    by (rule hd_in_set)
  with b show ?thesis by blast
qed

section \<open>The saturator is odd and continuous\<close>

text \<open>Away from the origin the saturator is a quotient of continuous functions.\<close>

lemma clamp_max_min:
  fixes b u :: real
  assumes "0 < b"
  shows "(if (if u > b then b else u) < - b then - b else (if u > b then b else u))
          = max (- b) (min b u)"
  using assms by (auto simp: max_def min_def)

lemma spiral_max_min:
  "spiral_saturate u =
    (if max (- 1.2533141373155) (min 1.2533141373155 u) = 0 then 0
     else sin (max (- 1.2533141373155) (min 1.2533141373155 u)
                 * \<bar>max (- 1.2533141373155) (min 1.2533141373155 u)\<bar>)
          / \<bar>max (- 1.2533141373155) (min 1.2533141373155 u)\<bar>)"
proof -
  have b: "(0::real) < 1.2533141373155" by simp
  have z: "(if \<bar>c\<bar> = 0.0 then 0.0 else w) = (if c = 0 then 0 else w)" for c w :: real
    by simp
  show ?thesis
    unfolding spiral_saturate_def Let_def clamp_max_min [OF b] by (rule z)
qed

lemma clamp_nonzero:
  fixes b u :: real
  assumes "0 < b" "u \<noteq> 0"
  shows "max (- b) (min b u) \<noteq> 0"
  using assms by (auto simp: max_def min_def)

lemma spiral_isCont_away:
  assumes "v \<noteq> 0"
  shows "isCont spiral_saturate v"
proof -
  let ?c = "\<lambda>u::real. max (- 1.2533141373155) (min 1.2533141373155 u)"
  let ?h = "\<lambda>u. sin (?c u * \<bar>?c u\<bar>) / \<bar>?c u\<bar>"
  have b: "(0::real) < 1.2533141373155" by simp
  have nz: "?c u \<noteq> 0" if "u \<noteq> 0" for u
    using b that by (rule clamp_nonzero)
  have eq: "spiral_saturate u = ?h u" if "u \<noteq> 0" for u
    using nz [OF that] by (simp only: spiral_max_min if_False)
  have "isCont ?h v"
    using nz [OF assms] by (intro continuous_intros) simp_all
  moreover have "\<forall>\<^sub>F u in nhds v. spiral_saturate u = ?h u"
  proof -
    have "open {u::real. u \<noteq> 0}" by (simp add: open_Collect_neq)
    then have "\<forall>\<^sub>F u in nhds v. u \<in> {u::real. u \<noteq> 0}"
      using assms by (intro eventually_nhds_in_open) simp_all
    then show ?thesis by (rule eventually_mono) (simp add: eq)
  qed
  ultimately show ?thesis by (simp add: isCont_cong)
qed

text \<open>
  Claim C8: the saturator is odd, \<open>spiral_saturate (- v) = - spiral_saturate v\<close> for every
  \<open>v\<close> (in particular on the clamped domain), it is 0 at 0, and it is continuous
  everywhere, the origin included.
\<close>

theorem spiral_odd_continuous:
  "(\<forall>v. spiral_saturate (- v) = - spiral_saturate v) \<and>
   spiral_saturate 0 = 0 \<and>
   (\<forall>v. isCont spiral_saturate v)"
proof (intro conjI allI)
  fix v
  show "spiral_saturate (- v) = - spiral_saturate v" by (rule spiral_odd)
  show "isCont spiral_saturate v"
    by (cases "v = 0") (simp_all add: spiral_isCont_0 spiral_isCont_away)
qed (rule spiral_zero)

theorem spiral_odd_continuous_witness:
  "spiral_saturate (- 1) = - sin 1 \<and> spiral_saturate 2 = - spiral_saturate (- 2)"
proof -
  have "spiral_saturate 1 = sin 1" by (simp add: spiral_saturate_def Let_def)
  then show ?thesis using spiral_odd_continuous by simp
qed

section \<open>The clipper memory and the hard clip\<close>

lemma tape_sample_clip:
  "\<exists>w m. snd (tape_sample roll bump x v) = hard_clip (fst (adclip w m)) \<and>
         lastSample (fst (tape_sample roll bump x v)) = snd (adclip w m)"
  unfolding tape_sample_def Let_def split_beta snd_conv fst_conv
  by (intro exI conjI) (rule refl, simp)

lemma hard_clip_adclip: "hard_clip (fst (adclip w m)) = fst (adclip w m)"
  using adclip_bounds [of w m] by (simp add: hard_clip_id)

lemma tape_sample_last: "snd (tape_sample roll bump x v) = lastSample (fst (tape_sample roll bump x v))"
proof -
  obtain w m where "snd (tape_sample roll bump x v) = hard_clip (fst (adclip w m))"
    and "lastSample (fst (tape_sample roll bump x v)) = snd (adclip w m)"
    using tape_sample_clip by blast
  then show ?thesis by (simp add: hard_clip_adclip adclip_snd)
qed

lemma tape_sample_last_bounds:
  "- 0.99 \<le> lastSample (fst (tape_sample roll bump x v)) \<and>
   lastSample (fst (tape_sample roll bump x v)) \<le> 0.99"
  using tape_sample_out_bounds [of roll bump x v] by (simp add: tape_sample_last)

lemma tape_loop_last:
  "block \<noteq> [] \<Longrightarrow>
   lastSample (fst (tape_loop roll bump x block)) = last (snd (tape_loop roll bump x block))"
proof (induction block arbitrary: x)
  case Nil
  then show ?case by simp
next
  case (Cons v rest)
  show ?case
  proof (cases "rest = []")
    case True
    then show ?thesis by (simp add: split_beta Let_def tape_sample_last)
  next
    case False
    then have "snd (tape_loop roll bump (fst (tape_sample roll bump x v)) rest) \<noteq> []"
      using tape_loop_length [of roll bump "fst (tape_sample roll bump x v)" rest] by auto
    then show ?thesis using Cons.IH [OF False] by (simp add: split_beta Let_def)
  qed
qed

lemma tape_loop_last_bounds:
  "- 0.99 \<le> lastSample x \<Longrightarrow> lastSample x \<le> 0.99 \<Longrightarrow>
   - 0.99 \<le> lastSample (fst (tape_loop roll bump x block)) \<and>
   lastSample (fst (tape_loop roll bump x block)) \<le> 0.99"
proof (induction block arbitrary: x)
  case Nil
  then show ?case by simp
next
  case (Cons v rest)
  then show ?case
    using tape_sample_last_bounds [of roll bump x v] by (simp add: split_beta Let_def)
qed

lemma tape_event_last_bounds:
  assumes "- 0.99 \<le> lastSample x" "lastSample x \<le> 0.99"
  shows "- 0.99 \<le> lastSample (tape_event x e) \<and> lastSample (tape_event x e) \<le> 0.99"
proof (cases e)
  case (Dsp r)
  then show ?thesis using assms by (simp add: tape_dsp_def)
next
  case (Perform block)
  have "lastSample (tape_setup x) = lastSample x" by (simp add: tape_setup_def)
  then show ?thesis
    using Perform assms tape_loop_last_bounds [of "tape_setup x"]
    by (simp add: tape_perform_def)
qed

lemma tape_events_last_bounds:
  "- 0.99 \<le> lastSample x \<Longrightarrow> lastSample x \<le> 0.99 \<Longrightarrow>
   - 0.99 \<le> lastSample (tape_events x es) \<and> lastSample (tape_events x es) \<le> 0.99"
proof (induction es arbitrary: x)
  case Nil
  then show ?case by simp
next
  case (Cons e es)
  then show ?case using tape_event_last_bounds [of x e] by simp
qed

text \<open>
  In the real-valued reading the clipper returns a value between -0.99 and 0.99 and leaves
  it as its memory, so the final hard clip changes nothing and the value written is the
  memory left for the next sample.
\<close>

lemma clipper_memory_is_output:
  "(- 0.99 \<le> fst (adclip v m) \<and> fst (adclip v m) \<le> 0.99 \<and> snd (adclip v m) = fst (adclip v m)) \<and>
   hard_clip (fst (adclip v m)) = fst (adclip v m) \<and>
   snd (tape_sample roll bump x v) = lastSample (fst (tape_sample roll bump x v)) \<and>
   (- 0.99 \<le> lastSample (tape_events (tape_new x) es) \<and>
      lastSample (tape_events (tape_new x) es) \<le> 0.99) \<and>
   last (snd (tape_perform (tape_events (tape_new x) es) (v # block)))
      = lastSample (fst (tape_perform (tape_events (tape_new x) es) (v # block)))"
proof -
  have "lastSample (tape_new x) = 0" by (simp add: tape_new_def)
  then have "- 0.99 \<le> lastSample (tape_events (tape_new x) es) \<and>
      lastSample (tape_events (tape_new x) es) \<le> 0.99"
    using tape_events_last_bounds [of "tape_new x" es] by simp
  moreover have "last (snd (tape_perform y (v # block))) = lastSample (fst (tape_perform y (v # block)))" for y
    using tape_loop_last [of "v # block"] by (simp add: tape_perform_def)
  ultimately show ?thesis
    using adclip_bounds [of v m] by (simp only: adclip_snd hard_clip_adclip tape_sample_last simp_thms)
qed

section \<open>The head bump values\<close>

lemma arcsin_abs: "- 1 \<le> c \<Longrightarrow> c \<le> 1 \<Longrightarrow> \<bar>arcsin c\<bar> \<le> pi / 2"
  using arcsin_lbound [of c] arcsin_ubound [of c] by linarith

lemma clamp_arcsin:
  fixes t :: real
  shows "\<exists>c. - 1 \<le> c \<and> c \<le> 1 \<and> arcsin (if 1 < t then 1 else if t < - 1 then - 1 else t) = arcsin c"
proof (intro exI conjI)
  show "arcsin (if 1 < t then 1 else if t < - 1 then - 1 else t)
      = arcsin (if 1 < t then 1 else if t < - 1 then - 1 else t)"
    by (rule refl)
qed simp_all

lemma tape_sideA_hb:
  "\<exists>c. - 1 \<le> c \<and> c \<le> 1 \<and> iirHeadBumpA (fst (tape_sideA roll bump x v)) = arcsin c"
proof -
  let ?h = "iirHeadBumpA x + v * 0.05"
  let ?t = "sin (?h - ?h * ?h * ?h * bump) * biquadA x 2 + biquadA x 7"
  have "iirHeadBumpA (fst (tape_sideA roll bump x v))
      = arcsin (if 1 < ?t then 1 else if ?t < - 1 then - 1 else ?t)"
    by (simp add: tape_sideA_def Let_def)
  then show ?thesis using clamp_arcsin [of ?t] by simp
qed

lemma tape_sideB_hb:
  "\<exists>c. - 1 \<le> c \<and> c \<le> 1 \<and> iirHeadBumpB (fst (tape_sideB roll bump x v)) = arcsin c"
proof -
  let ?h = "iirHeadBumpB x + v * 0.05"
  let ?t = "sin (?h - ?h * ?h * ?h * bump) * biquadB x 2 + biquadB x 7"
  have "iirHeadBumpB (fst (tape_sideB roll bump x v))
      = arcsin (if 1 < ?t then 1 else if ?t < - 1 then - 1 else ?t)"
    by (simp add: tape_sideB_def Let_def)
  then show ?thesis using clamp_arcsin [of ?t] by simp
qed

lemma tape_sideA_other:
  "iirHeadBumpB (fst (tape_sideA roll bump x v)) = iirHeadBumpB x"
  "iirMidRollerB (fst (tape_sideA roll bump x v)) = iirMidRollerB x"
  "biquadB (fst (tape_sideA roll bump x v)) = biquadB x"
  "flip (fst (tape_sideA roll bump x v)) = flip x"
  by (simp_all add: tape_sideA_def Let_def)

lemma tape_sideB_other:
  "iirHeadBumpA (fst (tape_sideB roll bump x v)) = iirHeadBumpA x"
  "iirMidRollerA (fst (tape_sideB roll bump x v)) = iirMidRollerA x"
  "biquadA (fst (tape_sideB roll bump x v)) = biquadA x"
  "flip (fst (tape_sideB roll bump x v)) = flip x"
  by (simp_all add: tape_sideB_def Let_def)

lemma tape_filters_fields:
  "iirHeadBumpA (fst (tape_filters roll bump x v)) =
     (if flip x \<noteq> 0 then iirHeadBumpA (fst (tape_sideA roll bump x v)) else iirHeadBumpA x)"
  "iirHeadBumpB (fst (tape_filters roll bump x v)) =
     (if flip x \<noteq> 0 then iirHeadBumpB x else iirHeadBumpB (fst (tape_sideB roll bump x v)))"
  by (simp_all add: tape_filters_def split_beta Let_def tape_sideA_other tape_sideB_other)

lemma tape_filters_active:
  "\<exists>c. - 1 \<le> c \<and> c \<le> 1 \<and>
     (if flip x \<noteq> 0 then iirHeadBumpA (fst (tape_filters roll bump x v))
      else iirHeadBumpB (fst (tape_filters roll bump x v))) = arcsin c"
  using tape_sideA_hb [of roll bump x v] tape_sideB_hb [of roll bump x v]
  by (simp add: tape_filters_fields)

lemma tape_filters_hb:
  assumes "\<bar>iirHeadBumpA x\<bar> \<le> pi / 2" "\<bar>iirHeadBumpB x\<bar> \<le> pi / 2"
  shows "\<bar>iirHeadBumpA (fst (tape_filters roll bump x v))\<bar> \<le> pi / 2"
    "\<bar>iirHeadBumpB (fst (tape_filters roll bump x v))\<bar> \<le> pi / 2"
proof -
  obtain a where a: "- 1 \<le> a" "a \<le> 1" "iirHeadBumpA (fst (tape_sideA roll bump x v)) = arcsin a"
    using tape_sideA_hb by blast
  obtain b where b: "- 1 \<le> b" "b \<le> 1" "iirHeadBumpB (fst (tape_sideB roll bump x v)) = arcsin b"
    using tape_sideB_hb by blast
  show "\<bar>iirHeadBumpA (fst (tape_filters roll bump x v))\<bar> \<le> pi / 2"
    using assms a arcsin_abs [of a] by (simp add: tape_filters_fields)
  show "\<bar>iirHeadBumpB (fst (tape_filters roll bump x v))\<bar> \<le> pi / 2"
    using assms b arcsin_abs [of b] by (simp add: tape_filters_fields)
qed

lemma tape_sample_hb_fields:
  "iirHeadBumpA (fst (tape_sample roll bump x v)) =
     restrain (tape_suppress (spiral_saturate (tape_soften (snd (tape_filters roll bump x (v * INPUT_GAIN))) (v * INPUT_GAIN))))
       (iirHeadBumpA (fst (tape_filters roll bump x (v * INPUT_GAIN))))"
  "iirHeadBumpB (fst (tape_sample roll bump x v)) =
     restrain (tape_suppress (spiral_saturate (tape_soften (snd (tape_filters roll bump x (v * INPUT_GAIN))) (v * INPUT_GAIN))))
       (iirHeadBumpB (fst (tape_filters roll bump x (v * INPUT_GAIN))))"
  by (simp_all add: tape_sample_def tape_restrain_def split_beta Let_def)

lemma tape_sample_hb:
  assumes "\<bar>iirHeadBumpA x\<bar> \<le> pi / 2" "\<bar>iirHeadBumpB x\<bar> \<le> pi / 2"
  shows "\<bar>iirHeadBumpA (fst (tape_sample roll bump x v))\<bar> \<le> pi / 2"
    "\<bar>iirHeadBumpB (fst (tape_sample roll bump x v))\<bar> \<le> pi / 2"
proof -
  let ?d = "tape_suppress (spiral_saturate (tape_soften (snd (tape_filters roll bump x (v * INPUT_GAIN))) (v * INPUT_GAIN)))"
  have d: "0 \<le> ?d" by (rule suppress_range)
  note f = tape_filters_hb [OF assms, of roll bump "v * INPUT_GAIN"]
  show "\<bar>iirHeadBumpA (fst (tape_sample roll bump x v))\<bar> \<le> pi / 2"
    using restrain_abs [OF d, of "iirHeadBumpA (fst (tape_filters roll bump x (v * INPUT_GAIN)))"] f(1)
    by (simp only: tape_sample_hb_fields)
  show "\<bar>iirHeadBumpB (fst (tape_sample roll bump x v))\<bar> \<le> pi / 2"
    using restrain_abs [OF d, of "iirHeadBumpB (fst (tape_filters roll bump x (v * INPUT_GAIN)))"] f(2)
    by (simp only: tape_sample_hb_fields)
qed

lemma tape_loop_hb:
  "\<bar>iirHeadBumpA x\<bar> \<le> pi / 2 \<Longrightarrow> \<bar>iirHeadBumpB x\<bar> \<le> pi / 2 \<Longrightarrow>
   \<bar>iirHeadBumpA (fst (tape_loop roll bump x block))\<bar> \<le> pi / 2 \<and>
   \<bar>iirHeadBumpB (fst (tape_loop roll bump x block))\<bar> \<le> pi / 2"
proof (induction block arbitrary: x)
  case Nil
  then show ?case by simp
next
  case (Cons v rest)
  then show ?case
    using tape_sample_hb [of x roll bump v] by (simp add: split_beta Let_def)
qed

lemma tape_event_hb:
  assumes "\<bar>iirHeadBumpA x\<bar> \<le> pi / 2" "\<bar>iirHeadBumpB x\<bar> \<le> pi / 2"
  shows "\<bar>iirHeadBumpA (tape_event x e)\<bar> \<le> pi / 2 \<and> \<bar>iirHeadBumpB (tape_event x e)\<bar> \<le> pi / 2"
proof (cases e)
  case (Dsp r)
  then show ?thesis using assms by (simp add: tape_dsp_def)
next
  case (Perform block)
  have "iirHeadBumpA (tape_setup x) = iirHeadBumpA x" "iirHeadBumpB (tape_setup x) = iirHeadBumpB x"
    by (simp_all add: tape_setup_def)
  then show ?thesis
    using Perform assms tape_loop_hb [of "tape_setup x"] by (simp add: tape_perform_def)
qed

lemma tape_events_hb:
  "\<bar>iirHeadBumpA x\<bar> \<le> pi / 2 \<Longrightarrow> \<bar>iirHeadBumpB x\<bar> \<le> pi / 2 \<Longrightarrow>
   \<bar>iirHeadBumpA (tape_events x es)\<bar> \<le> pi / 2 \<and> \<bar>iirHeadBumpB (tape_events x es)\<bar> \<le> pi / 2"
proof (induction es arbitrary: x)
  case Nil
  then show ?case by simp
next
  case (Cons e es)
  then show ?case using tape_event_hb [of x e] by simp
qed

lemma bump_sum_bound:
  fixes a b :: real
  assumes "\<bar>a\<bar> \<le> pi / 2" "\<bar>b\<bar> \<le> pi / 2"
  shows "\<bar>(a + b) * HEAD_BUMP\<bar> \<le> pi * HEAD_BUMP"
proof -
  have "\<bar>a + b\<bar> \<le> pi" using assms by linarith
  moreover have "0 \<le> HEAD_BUMP" by (simp add: HEAD_BUMP_def)
  ultimately show ?thesis by (simp add: abs_mult mult_right_mono)
qed

lemma restrain_props:
  assumes "0 \<le> d"
  shows "\<bar>hb - restrain d hb\<bar> \<le> d" "sgn (restrain d hb) = sgn hb"
  using assms by (simp_all add: restrain_cases sgn_if)

text \<open>
  In the real-valued reading, from construction on, both head bump values lie between
  \<open>- pi / 2\<close> and \<open>pi / 2\<close> after any calls and after every further sample.
\<close>

lemma head_bump_bounded:
  "(\<bar>iirHeadBumpA (tape_events (tape_new x) es)\<bar> \<le> pi / 2 \<and>
    \<bar>iirHeadBumpB (tape_events (tape_new x) es)\<bar> \<le> pi / 2) \<and>
   (\<bar>iirHeadBumpA (fst (tape_sample roll bump (tape_events (tape_new x) es) v))\<bar> \<le> pi / 2 \<and>
    \<bar>iirHeadBumpB (fst (tape_sample roll bump (tape_events (tape_new x) es) v))\<bar> \<le> pi / 2) \<and>
   \<bar>(iirHeadBumpA (fst (tape_sample roll bump (tape_events (tape_new x) es) v))
      + iirHeadBumpB (fst (tape_sample roll bump (tape_events (tape_new x) es) v))) * HEAD_BUMP\<bar>
     \<le> pi * HEAD_BUMP \<and>
   (\<exists>c. - 1 \<le> c \<and> c \<le> 1 \<and>
     (if flip (tape_events (tape_new x) es) \<noteq> 0
      then iirHeadBumpA (fst (tape_filters roll bump (tape_events (tape_new x) es) v))
      else iirHeadBumpB (fst (tape_filters roll bump (tape_events (tape_new x) es) v))) = arcsin c) \<and>
   \<bar>spiral_saturate w\<bar> \<le> 1 \<and> 0 \<le> tape_suppress (spiral_saturate w)"
proof -
  let ?y = "tape_events (tape_new x) es"
  have "\<bar>iirHeadBumpA (tape_new x)\<bar> \<le> pi / 2" "\<bar>iirHeadBumpB (tape_new x)\<bar> \<le> pi / 2"
    by (simp_all add: tape_new_def)
  then have y: "\<bar>iirHeadBumpA ?y\<bar> \<le> pi / 2" "\<bar>iirHeadBumpB ?y\<bar> \<le> pi / 2"
    using tape_events_hb [of "tape_new x" es] by simp_all
  note s = tape_sample_hb [OF y, of roll bump v]
  show ?thesis
    using y s bump_sum_bound [OF s] tape_filters_active [of ?y roll bump v]
      spiral_le_one [of w] suppress_range(1) [of w]
    by blast
qed

text \<open>
  Claim C7: on every sample, whichever side was advanced, \<open>suppress\<close> is computed from
  the saturated sample as \<open>(1 - \<bar>saturated\<bar>) * 0.00013\<close>, it is not negative, and
  each of the two head bump values is moved towards zero by \<open>suppress\<close> when its
  magnitude exceeds \<open>suppress\<close> and left alone otherwise: it moves by at most
  \<open>suppress\<close> and keeps its sign.
\<close>

theorem decay_guard_every_sample:
  "let input0 = v * INPUT_GAIN;
       x1 = fst (tape_filters roll bump x input0);
       saturated = spiral_saturate (tape_soften (snd (tape_filters roll bump x input0)) input0);
       suppress = (1 - \<bar>saturated\<bar>) * 0.00013;
       x2 = fst (tape_sample roll bump x v)
   in 0 \<le> suppress \<and> suppress \<le> 0.00013 \<and>
      iirHeadBumpA x2 =
        (if iirHeadBumpA x1 > suppress then iirHeadBumpA x1 - suppress
         else if iirHeadBumpA x1 < - suppress then iirHeadBumpA x1 + suppress
         else iirHeadBumpA x1) \<and>
      iirHeadBumpB x2 =
        (if iirHeadBumpB x1 > suppress then iirHeadBumpB x1 - suppress
         else if iirHeadBumpB x1 < - suppress then iirHeadBumpB x1 + suppress
         else iirHeadBumpB x1) \<and>
      \<bar>iirHeadBumpA x2\<bar> \<le> \<bar>iirHeadBumpA x1\<bar> \<and> \<bar>iirHeadBumpA x1 - iirHeadBumpA x2\<bar> \<le> suppress \<and>
      sgn (iirHeadBumpA x2) = sgn (iirHeadBumpA x1) \<and>
      \<bar>iirHeadBumpB x2\<bar> \<le> \<bar>iirHeadBumpB x1\<bar> \<and> \<bar>iirHeadBumpB x1 - iirHeadBumpB x2\<bar> \<le> suppress \<and>
      sgn (iirHeadBumpB x2) = sgn (iirHeadBumpB x1)"
proof -
  define x1 where "x1 = fst (tape_filters roll bump x (v * INPUT_GAIN))"
  define saturated where
    "saturated = spiral_saturate (tape_soften (snd (tape_filters roll bump x (v * INPUT_GAIN))) (v * INPUT_GAIN))"
  define suppress where "suppress = (1 - \<bar>saturated\<bar>) * 0.00013"
  define x2 where "x2 = fst (tape_sample roll bump x v)"
  have sup: "suppress = tape_suppress saturated"
    by (simp add: suppress_def tape_suppress_def)
  have d: "0 \<le> suppress" "suppress \<le> 0.00013"
    unfolding sup saturated_def by (rule suppress_range)+
  have a: "iirHeadBumpA x2 = restrain suppress (iirHeadBumpA x1)"
    and b: "iirHeadBumpB x2 = restrain suppress (iirHeadBumpB x1)"
    unfolding x2_def x1_def sup saturated_def by (rule tape_sample_hb_fields)+
  have "0 \<le> suppress \<and> suppress \<le> 0.00013 \<and>
      iirHeadBumpA x2 =
        (if iirHeadBumpA x1 > suppress then iirHeadBumpA x1 - suppress
         else if iirHeadBumpA x1 < - suppress then iirHeadBumpA x1 + suppress
         else iirHeadBumpA x1) \<and>
      iirHeadBumpB x2 =
        (if iirHeadBumpB x1 > suppress then iirHeadBumpB x1 - suppress
         else if iirHeadBumpB x1 < - suppress then iirHeadBumpB x1 + suppress
         else iirHeadBumpB x1) \<and>
      \<bar>iirHeadBumpA x2\<bar> \<le> \<bar>iirHeadBumpA x1\<bar> \<and> \<bar>iirHeadBumpA x1 - iirHeadBumpA x2\<bar> \<le> suppress \<and>
      sgn (iirHeadBumpA x2) = sgn (iirHeadBumpA x1) \<and>
      \<bar>iirHeadBumpB x2\<bar> \<le> \<bar>iirHeadBumpB x1\<bar> \<and> \<bar>iirHeadBumpB x1 - iirHeadBumpB x2\<bar> \<le> suppress \<and>
      sgn (iirHeadBumpB x2) = sgn (iirHeadBumpB x1)"
    unfolding a b
    using d restrain_cases [OF d(1)] restrain_abs [OF d(1)] restrain_props [OF d(1)]
    by (intro conjI) blast+
  then show ?thesis
    unfolding Let_def x1_def saturated_def suppress_def x2_def .
qed

theorem decay_guard_every_sample_witness:
  "iirHeadBumpA (fst (tape_sample 0 0 (tape_zero\<lparr>iirHeadBumpA := 1\<rparr>) 0)) = 1 - 0.00013 \<and>
   iirHeadBumpB (fst (tape_sample 0 0 (tape_zero\<lparr>iirHeadBumpA := 1\<rparr>) 0)) = 0"
proof -
  let ?x = "tape_zero\<lparr>iirHeadBumpA := 1\<rparr>"
  have f: "iirHeadBumpA (fst (tape_filters 0 0 ?x 0)) = 1"
    "iirHeadBumpB (fst (tape_filters 0 0 ?x 0)) = 0"
    "snd (tape_filters 0 0 ?x 0) = 0"
    by (simp_all add: tape_filters_def tape_sideB_def tape_zero_def Let_def)
  have s: "spiral_saturate (tape_soften 0 0) = 0"
    by (simp add: tape_soften_def spiral_saturate_def Let_def)
  show ?thesis
    using decay_guard_every_sample [of 0 0 0 ?x]
    by (simp add: Let_def f s)
qed

section \<open>Alternation of the two sides\<close>

lemma tape_filters_side:
  "tape_side (fst (tape_filters roll bump x v)) = (if tape_side x = SideA then SideB else SideA)"
  by (simp add: tape_filters_def tape_side_def split_beta Let_def tape_sideA_other tape_sideB_other)

lemma tape_sample_via_filters:
  "iirMidRollerA (fst (tape_sample roll bump x v)) = iirMidRollerA (fst (tape_filters roll bump x (v * INPUT_GAIN)))"
  "iirMidRollerB (fst (tape_sample roll bump x v)) = iirMidRollerB (fst (tape_filters roll bump x (v * INPUT_GAIN)))"
  "biquadA (fst (tape_sample roll bump x v)) = biquadA (fst (tape_filters roll bump x (v * INPUT_GAIN)))"
  "biquadB (fst (tape_sample roll bump x v)) = biquadB (fst (tape_filters roll bump x (v * INPUT_GAIN)))"
  "flip (fst (tape_sample roll bump x v)) = flip (fst (tape_filters roll bump x (v * INPUT_GAIN)))"
  by (simp_all add: tape_sample_def tape_restrain_def split_beta Let_def)

lemma tape_sample_side:
  "tape_side (fst (tape_sample roll bump x v)) = (if tape_side x = SideA then SideB else SideA)"
  using tape_filters_side [of roll bump x "v * INPUT_GAIN"]
  by (simp add: tape_side_def tape_sample_via_filters)

lemma tape_sample_sideA:
  assumes "tape_side x = SideA"
  shows "iirMidRollerA (fst (tape_sample roll bump x v))
          = (iirMidRollerA x * (1 - roll)) + (v * INPUT_GAIN * roll)"
    "iirMidRollerB (fst (tape_sample roll bump x v)) = iirMidRollerB x"
    "biquadB (fst (tape_sample roll bump x v)) = biquadB x"
    "\<exists>d. iirHeadBumpB (fst (tape_sample roll bump x v)) = restrain d (iirHeadBumpB x)"
proof -
  have f: "flip x \<noteq> 0" using assms by (simp add: tape_side_def split: if_splits)
  show "iirMidRollerA (fst (tape_sample roll bump x v))
          = (iirMidRollerA x * (1 - roll)) + (v * INPUT_GAIN * roll)"
    using f by (simp add: tape_sample_via_filters tape_filters_def tape_sideA_def Let_def)
  show "iirMidRollerB (fst (tape_sample roll bump x v)) = iirMidRollerB x"
    using f by (simp add: tape_sample_via_filters tape_filters_def split_beta tape_sideA_other)
  show "biquadB (fst (tape_sample roll bump x v)) = biquadB x"
    using f by (simp add: tape_sample_via_filters tape_filters_def split_beta tape_sideA_other)
  show "\<exists>d. iirHeadBumpB (fst (tape_sample roll bump x v)) = restrain d (iirHeadBumpB x)"
    using f by (auto simp: tape_sample_hb_fields tape_filters_fields)
qed

lemma tape_sample_sideB:
  assumes "tape_side x = SideB"
  shows "iirMidRollerB (fst (tape_sample roll bump x v))
          = (iirMidRollerB x * (1 - roll)) + (v * INPUT_GAIN * roll)"
    "iirMidRollerA (fst (tape_sample roll bump x v)) = iirMidRollerA x"
    "biquadA (fst (tape_sample roll bump x v)) = biquadA x"
    "\<exists>d. iirHeadBumpA (fst (tape_sample roll bump x v)) = restrain d (iirHeadBumpA x)"
proof -
  have f: "flip x = 0" using assms by (simp add: tape_side_def split: if_splits)
  show "iirMidRollerB (fst (tape_sample roll bump x v))
          = (iirMidRollerB x * (1 - roll)) + (v * INPUT_GAIN * roll)"
    using f by (simp add: tape_sample_via_filters tape_filters_def tape_sideB_def Let_def)
  show "iirMidRollerA (fst (tape_sample roll bump x v)) = iirMidRollerA x"
    using f by (simp add: tape_sample_via_filters tape_filters_def split_beta tape_sideB_other)
  show "biquadA (fst (tape_sample roll bump x v)) = biquadA x"
    using f by (simp add: tape_sample_via_filters tape_filters_def split_beta tape_sideB_other)
  show "\<exists>d. iirHeadBumpA (fst (tape_sample roll bump x v)) = restrain d (iirHeadBumpA x)"
    using f by (auto simp: tape_sample_hb_fields tape_filters_fields)
qed






section \<open>The coefficients\<close>

text \<open>
  The constant \<^const>\<open>softness\<close> is the 24-digit literal of the source. With the 16-digit
  value 0.6180339887498948 in its place the roll-off amount comes out different, already at
  the reference rate.
\<close>

theorem coefficient_phi_counterexample:
  "RollAmount (tape_dsp (tape_new tape_zero) 44100) \<noteq> (1 - 0.6180339887498948) / (44100 / 44100)"
  by (simp add: RollAmount_def overallscale_def tape_dsp_def tape_new_def tape_zero_def softness_def)

lemma tape_setup_entries:
  "biquadA (tape_setup x) 2 = coef_a0 x" "biquadA (tape_setup x) 3 = coef_a1 x"
  "biquadA (tape_setup x) 4 = coef_a2 x" "biquadA (tape_setup x) 5 = coef_b1 x"
  "biquadA (tape_setup x) 6 = coef_b2 x"
  "biquadB (tape_setup x) 2 = coef_a0 x" "biquadB (tape_setup x) 3 = coef_a1 x"
  "biquadB (tape_setup x) 4 = coef_a2 x" "biquadB (tape_setup x) 5 = coef_b1 x"
  "biquadB (tape_setup x) 6 = coef_b2 x"
  by (simp_all add: tape_setup_def)

text \<open>
  Claim C5, with the constant of the source: for every sample rate above 0 the
  coefficients that \<^const>\<open>tape_perform\<close> derives at the start of a block are
  \<open>rollAmount = (1 - phi) / scale\<close> with \<open>phi = 0.618033988749894848204586\<close> and
  \<open>scale = sampleRate / 44100\<close>, \<open>headBumpFreq = 0.12 / scale\<close>, and, with
  \<open>K = tan (pi * 0.0072 / scale)\<close>, \<open>Q = 0.0009\<close> and \<open>norm = 1 / (1 + K / Q + K\<^sup>2)\<close>,
  the filter coefficients \<open>a0 = (K / Q) * norm\<close>, \<open>a1 = 0\<close>, \<open>a2 = - a0\<close>,
  \<open>b1 = 2 * (K\<^sup>2 - 1) * norm\<close>, \<open>b2 = (1 - K / Q + K\<^sup>2) * norm\<close>, stored at the
  indices 2 to 6 of both arrays and still there after the block; two objects with the
  same sample rate get the same coefficients.
\<close>

theorem coefficients_from_rate:
  assumes "0 < x_sr x"
  shows
  "let scale = x_sr x / 44100;
       phi = 0.618033988749894848204586;
       K = tan (pi * (0.0072 / scale));
       Q = 0.0009;
       norm = 1 / (1 + K / Q + K\<^sup>2);
       a0 = (K / Q) * norm;
       a1 = 0;
       a2 = - a0;
       b1 = 2 * (K\<^sup>2 - 1) * norm;
       b2 = (1 - K / Q + K\<^sup>2) * norm
   in tape_perform x block = tape_loop ((1 - phi) / scale) (0.12 / scale) (tape_setup x) block \<and>
      RollAmount x = (1 - phi) / scale \<and> HeadBumpFreq x = 0.12 / scale \<and>
      map (biquadA (tape_setup x)) [2, 3, 4, 5, 6] = [a0, a1, a2, b1, b2] \<and>
      map (biquadB (tape_setup x)) [2, 3, 4, 5, 6] = [a0, a1, a2, b1, b2] \<and>
      map (biquadA (fst (tape_perform x block))) [2, 3, 4, 5, 6] = [a0, a1, a2, b1, b2] \<and>
      map (biquadB (fst (tape_perform x block))) [2, 3, 4, 5, 6] = [a0, a1, a2, b1, b2] \<and>
      (\<forall>y. x_sr y = x_sr x \<longrightarrow>
         RollAmount y = RollAmount x \<and> HeadBumpFreq y = HeadBumpFreq x \<and>
         map (biquadA (tape_setup y)) [2, 3, 4, 5, 6] = map (biquadA (tape_setup x)) [2, 3, 4, 5, 6] \<and>
         map (biquadB (tape_setup y)) [2, 3, 4, 5, 6] = map (biquadB (tape_setup x)) [2, 3, 4, 5, 6])"
proof -
  have after: "biquadA (fst (tape_perform x block)) i = biquadA (tape_setup x) i \<and>
      biquadB (fst (tape_perform x block)) i = biquadB (tape_setup x) i"
    if "i \<noteq> 7" "i \<noteq> 8" for i
    using tape_loop_coefs [OF that] by (simp add: tape_perform_def)
  have e: "map (biquadA (tape_setup z)) [2, 3, 4, 5, 6]
         = [coef_a0 z, coef_a1 z, coef_a2 z, coef_b1 z, coef_b2 z]"
      "map (biquadB (tape_setup z)) [2, 3, 4, 5, 6]
         = [coef_a0 z, coef_a1 z, coef_a2 z, coef_b1 z, coef_b2 z]" for z
    by (simp_all add: tape_setup_entries)
  have f: "map (biquadA (fst (tape_perform x block))) [2, 3, 4, 5, 6]
         = [coef_a0 x, coef_a1 x, coef_a2 x, coef_b1 x, coef_b2 x]"
      "map (biquadB (fst (tape_perform x block))) [2, 3, 4, 5, 6]
         = [coef_a0 x, coef_a1 x, coef_a2 x, coef_b1 x, coef_b2 x]"
    by (simp_all add: tape_setup_entries after)
  have p: "tape_perform x block
      = tape_loop ((1 - 0.618033988749894848204586) / (x_sr x / 44100)) (0.12 / (x_sr x / 44100))
          (tape_setup x) block"
    by (simp add: tape_perform_def RollAmount_def HeadBumpFreq_def overallscale_def softness_def)
  have r: "RollAmount x = (1 - 0.618033988749894848204586) / (x_sr x / 44100)"
    "HeadBumpFreq x = 0.12 / (x_sr x / 44100)"
    by (simp_all add: RollAmount_def HeadBumpFreq_def overallscale_def softness_def)
  have c: "[coef_a0 x, coef_a1 x, coef_a2 x, coef_b1 x, coef_b2 x] =
    [(tan (pi * (0.0072 / (x_sr x / 44100))) / 0.0009) *
       (1 / (1 + tan (pi * (0.0072 / (x_sr x / 44100))) / 0.0009 + (tan (pi * (0.0072 / (x_sr x / 44100))))\<^sup>2)),
     0,
     - ((tan (pi * (0.0072 / (x_sr x / 44100))) / 0.0009) *
       (1 / (1 + tan (pi * (0.0072 / (x_sr x / 44100))) / 0.0009 + (tan (pi * (0.0072 / (x_sr x / 44100))))\<^sup>2))),
     2 * ((tan (pi * (0.0072 / (x_sr x / 44100))))\<^sup>2 - 1) *
       (1 / (1 + tan (pi * (0.0072 / (x_sr x / 44100))) / 0.0009 + (tan (pi * (0.0072 / (x_sr x / 44100))))\<^sup>2)),
     (1 - tan (pi * (0.0072 / (x_sr x / 44100))) / 0.0009 + (tan (pi * (0.0072 / (x_sr x / 44100))))\<^sup>2) *
       (1 / (1 + tan (pi * (0.0072 / (x_sr x / 44100))) / 0.0009 + (tan (pi * (0.0072 / (x_sr x / 44100))))\<^sup>2))]"
    by (simp add: coef_a0_def coef_a1_def coef_a2_def coef_b1_def coef_b2_def coef_norm_def
        coefK_def M_PI_def biquadFreq_def biquadQ_def overallscale_def power2_eq_square)
  have pure: "RollAmount y = RollAmount x \<and> HeadBumpFreq y = HeadBumpFreq x \<and>
         [coef_a0 y, coef_a1 y, coef_a2 y, coef_b1 y, coef_b2 y]
           = [coef_a0 x, coef_a1 x, coef_a2 x, coef_b1 x, coef_b2 x] \<and>
         [coef_a0 y, coef_a1 y, coef_a2 y, coef_b1 y, coef_b2 y]
           = [coef_a0 x, coef_a1 x, coef_a2 x, coef_b1 x, coef_b2 x]"
    if "x_sr y = x_sr x" for y
    using coefs_cong [OF that] by simp
  show ?thesis
    unfolding Let_def e f
    by (intro conjI allI impI; (rule p r c | (drule pure, elim conjE, assumption)))
qed

theorem coefficients_from_rate_witness:
  "RollAmount (tape_dsp tape_zero 88200) = (1 - 0.618033988749894848204586) / 2 \<and>
   HeadBumpFreq (tape_dsp tape_zero 88200) = 0.06 \<and>
   biquadA (tape_setup (tape_dsp tape_zero 88200)) 3 = 0"
proof -
  let ?x = "tape_dsp tape_zero 88200"
  have pos: "0 < x_sr ?x"
    by (simp add: tape_dsp_def)
  have sr: "x_sr ?x / 44100 = 2"
    by (simp add: tape_dsp_def)
  note t = coefficients_from_rate [OF pos, of "[]", unfolded Let_def]
  note r1 = t [THEN conjunct2, THEN conjunct1]
  note r2 = t [THEN conjunct2, THEN conjunct2, THEN conjunct1]
  note ma = t [THEN conjunct2, THEN conjunct2, THEN conjunct2, THEN conjunct1]
  have "map (biquadA (tape_setup ?x)) [2, 3, 4, 5, 6] ! 1 = 0"
    by (simp only: ma nth_Cons_Suc nth_Cons_0 One_nat_def)
  then have m3: "biquadA (tape_setup ?x) 3 = 0"
    by simp
  have "RollAmount ?x = (1 - 0.618033988749894848204586) / 2"
    using r1 by (simp only: sr)
  moreover have "HeadBumpFreq ?x = 0.06"
    using r2 by (simp add: sr)
  ultimately show ?thesis using m3 by blast
qed

section \<open>Silence\<close>

lemma tape_sample_zero_roll:
  "iirMidRollerA (fst (tape_sample roll bump x 0))
     = (if tape_side x = SideA then iirMidRollerA x * (1 - roll) else iirMidRollerA x)"
  "iirMidRollerB (fst (tape_sample roll bump x 0))
     = (if tape_side x = SideB then iirMidRollerB x * (1 - roll) else iirMidRollerB x)"
proof -
  show "iirMidRollerA (fst (tape_sample roll bump x 0))
     = (if tape_side x = SideA then iirMidRollerA x * (1 - roll) else iirMidRollerA x)"
  proof (cases "tape_side x")
    case SideA
    then show ?thesis using tape_sample_sideA(1) [OF SideA, of roll bump 0] by simp
  next
    case SideB
    then show ?thesis using tape_sample_sideB(2) [OF SideB, of roll bump 0] by simp
  qed
  show "iirMidRollerB (fst (tape_sample roll bump x 0))
     = (if tape_side x = SideB then iirMidRollerB x * (1 - roll) else iirMidRollerB x)"
  proof (cases "tape_side x")
    case SideA
    then show ?thesis using tape_sample_sideA(2) [OF SideA, of roll bump 0] by simp
  next
    case SideB
    then show ?thesis using tape_sample_sideB(1) [OF SideB, of roll bump 0] by simp
  qed
qed

lemma tape_sample_zero_twice:
  "iirMidRollerA (fst (tape_sample roll bump (fst (tape_sample roll bump x 0)) 0))
     = iirMidRollerA x * (1 - roll)"
  "iirMidRollerB (fst (tape_sample roll bump (fst (tape_sample roll bump x 0)) 0))
     = iirMidRollerB x * (1 - roll)"
  by (cases "tape_side x"; simp add: tape_sample_zero_roll tape_sample_side)+

lemma tape_loop_silence:
  "iirMidRollerA (fst (tape_loop roll bump x (replicate (2 * k) 0)))
     = iirMidRollerA x * (1 - roll) ^ k \<and>
   iirMidRollerB (fst (tape_loop roll bump x (replicate (2 * k) 0)))
     = iirMidRollerB x * (1 - roll) ^ k"
proof (induction k arbitrary: x)
  case 0
  then show ?case by simp
next
  case (Suc k)
  let ?x2 = "fst (tape_sample roll bump (fst (tape_sample roll bump x 0)) 0)"
  have "tape_loop roll bump x (replicate (2 * Suc k) 0)
      = (fst (tape_loop roll bump ?x2 (replicate (2 * k) 0)),
         snd (tape_sample roll bump x 0) # snd (tape_sample roll bump (fst (tape_sample roll bump x 0)) 0)
           # snd (tape_loop roll bump ?x2 (replicate (2 * k) 0)))"
    by (simp add: split_beta Let_def)
  then show ?case
    using Suc.IH [of ?x2] by (simp add: tape_sample_zero_twice mult.assoc)
qed

lemma tape_perform_silence:
  "iirMidRollerA (fst (tape_perform x (replicate (2 * k) 0)))
     = iirMidRollerA x * (1 - RollAmount x) ^ k \<and>
   iirMidRollerB (fst (tape_perform x (replicate (2 * k) 0)))
     = iirMidRollerB x * (1 - RollAmount x) ^ k"
  using tape_loop_silence [of "RollAmount x" "HeadBumpFreq x" "tape_setup x" k]
  by (simp add: tape_perform_def tape_setup_def)

lemma first_sample_roll:
  "iirMidRollerB (fst (tape_perform (tape_dsp (tape_new x) sr) [v]))
     = v * RollAmount (tape_dsp (tape_new x) sr)"
proof -
  let ?x = "tape_setup (tape_dsp (tape_new x) sr)"
  have "tape_side ?x = SideB"
    by (simp add: tape_side_def tape_setup_def tape_dsp_def tape_new_def)
  from tape_sample_sideB(1) [OF this] have
    "iirMidRollerB (fst (tape_sample (RollAmount (tape_dsp (tape_new x) sr))
        (HeadBumpFreq (tape_dsp (tape_new x) sr)) ?x v))
      = iirMidRollerB ?x * (1 - RollAmount (tape_dsp (tape_new x) sr))
        + v * INPUT_GAIN * RollAmount (tape_dsp (tape_new x) sr)" .
  moreover have "iirMidRollerB ?x = 0"
    by (simp add: tape_setup_def tape_dsp_def tape_new_def)
  ultimately show ?thesis
    by (simp add: tape_perform_def split_beta Let_def INPUT_GAIN_def)
qed

lemma roll_8000: "2 \<le> RollAmount (tape_dsp (tape_new x) 8000)"
  by (simp add: RollAmount_def overallscale_def tape_dsp_def softness_def)

lemma grow_keeps:
  fixes r :: real
  assumes "2 \<le> r"
  shows "2 \<le> \<bar>r * (1 - r) ^ n\<bar>"
proof -
  have "1 \<le> \<bar>1 - r\<bar>" using assms by simp
  then have "1 \<le> \<bar>1 - r\<bar> ^ n" by (rule one_le_power)
  then have "\<bar>r\<bar> * 1 \<le> \<bar>r\<bar> * \<bar>1 - r\<bar> ^ n"
    by (intro mult_left_mono) simp_all
  moreover have "\<bar>r * (1 - r) ^ n\<bar> = \<bar>r\<bar> * \<bar>1 - r\<bar> ^ n"
    by (simp only: abs_mult power_abs)
  moreover have "2 \<le> \<bar>r\<bar> * 1" using assms by simp
  ultimately show ?thesis by linarith
qed

text \<open>
  At a sample rate of 8000 the roll-off amount exceeds 2. After one sample of value 1 on a
  new object, 50000 samples of silence leave the roll-off value of side B at a magnitude
  of at least 2.
\<close>

theorem silence_decay_counterexample:
  "\<not> \<bar>iirMidRollerB
        (fst (tape_perform (fst (tape_perform (tape_dsp (tape_new tape_zero) 8000) [1]))
               (replicate 50000 0)))\<bar> < 1 / 10 ^ 6"
proof -
  let ?x0 = "tape_dsp (tape_new tape_zero) 8000"
  let ?x1 = "fst (tape_perform ?x0 [1])"
  have "x_sr ?x1 = x_sr ?x0" by (rule tape_perform_x_sr)
  then have r: "RollAmount ?x1 = RollAmount ?x0" by (rule coefs_cong)
  have m: "iirMidRollerB ?x1 = RollAmount ?x0"
    using first_sample_roll [of tape_zero 8000 1] by simp
  have "(50000::nat) = 2 * 25000" by simp
  then have "iirMidRollerB (fst (tape_perform ?x1 (replicate 50000 0)))
      = iirMidRollerB ?x1 * (1 - RollAmount ?x1) ^ 25000"
    using tape_perform_silence [of ?x1 25000] by (simp only:)
  then have "iirMidRollerB (fst (tape_perform ?x1 (replicate 50000 0)))
      = RollAmount ?x0 * (1 - RollAmount ?x0) ^ 25000"
    by (simp only: r m)
  moreover have "2 \<le> \<bar>RollAmount ?x0 * (1 - RollAmount ?x0) ^ 25000\<bar>"
    using roll_8000 by (rule grow_keeps)
  ultimately have "2 \<le> \<bar>iirMidRollerB (fst (tape_perform ?x1 (replicate 50000 0)))\<bar>"
    by (simp only:)
  moreover have "(1::real) / 10 ^ 6 \<le> 2" by simp
  ultimately show ?thesis by linarith
qed

lemma decay_power:
  fixes q :: real
  assumes "0 \<le> q" "q \<le> 1" "q ^ 9 \<le> 1 / 2" "9 * j + r = n"
  shows "q ^ n \<le> (1 / 2) ^ j"
proof -
  have "q ^ n = q ^ (9 * j + r)"
    by (simp only: assms(4))
  then have "q ^ n = (q ^ 9) ^ j * q ^ r"
    by (simp only: power_add power_mult)
  moreover have "(q ^ 9) ^ j \<le> (1 / 2) ^ j"
    using assms(1,3) by (intro power_mono) simp_all
  moreover have "q ^ r \<le> 1" "0 \<le> q ^ r"
    using assms(1,2) by (simp_all add: power_le_one)
  moreover have "0 \<le> (1 / 2 :: real) ^ j" by simp
  ultimately show ?thesis
    using mult_mono [of "(q ^ 9) ^ j" "(1 / 2) ^ j" "q ^ r" 1] by simp
qed

lemma half_power_absorb:
  fixes a p :: real
  assumes "\<bar>a\<bar> \<le> 2 ^ m" "0 \<le> p" "p \<le> (1 / 2) ^ (m + 20)"
  shows "\<bar>a * p\<bar> < 1 / 10 ^ 6"
proof -
  have "\<bar>a * p\<bar> = \<bar>a\<bar> * p" using assms(2) by (simp add: abs_mult)
  also have "\<dots> \<le> 2 ^ m * (1 / 2) ^ (m + 20)"
    using assms by (intro mult_mono) simp_all
  also have "\<dots> = (2 * (1 / 2)) ^ m * (1 / 2) ^ 20"
    by (simp only: power_add power_mult_distrib mult.assoc)
  also have "\<dots> = (1 / 2) ^ 20" by simp
  also have "\<dots> < 1 / 10 ^ 6" by (simp add: power_divide)
  finally show ?thesis .
qed

lemma roll_standard_rates:
  assumes "44100 \<le> x_sr x" "x_sr x \<le> 192000"
  shows "0 \<le> 1 - RollAmount x" "1 - RollAmount x \<le> 0.92"
proof -
  have pos: "0 < x_sr x" using assms by simp
  have "RollAmount x = (1 - softness) * 44100 / x_sr x"
    by (simp add: RollAmount_def overallscale_def)
  moreover have "(1 - softness) * 44100 \<le> 1 * x_sr x"
    using assms by (simp add: softness_def)
  moreover have "0.08 * x_sr x \<le> (1 - softness) * 44100"
    using assms by (simp add: softness_def)
  ultimately have "RollAmount x \<le> 1" "0.08 \<le> RollAmount x"
    using pos by (simp_all add: pos_divide_le_eq pos_le_divide_eq)
  then show "0 \<le> 1 - RollAmount x" "1 - RollAmount x \<le> 0.92" by simp_all
qed

lemma silence_factor:
  assumes "44100 \<le> x_sr x" "x_sr x \<le> 192000"
  shows "0 \<le> (1 - RollAmount x) ^ 25000" "(1 - RollAmount x) ^ 25000 \<le> (1 / 2) ^ (1024 + 20)"
proof -
  note q = roll_standard_rates [OF assms]
  show "0 \<le> (1 - RollAmount x) ^ 25000" using q(1) by simp
  have "(1 - RollAmount x) ^ 9 \<le> 0.92 ^ 9"
    using q by (intro power_mono)
  also have "(0.92 :: real) ^ 9 \<le> 1 / 2" by (simp add: power_divide)
  finally have n: "(1 - RollAmount x) ^ 9 \<le> 1 / 2" .
  have le1: "1 - RollAmount x \<le> 1" using q(2) by simp
  show "(1 - RollAmount x) ^ 25000 \<le> (1 / 2) ^ (1024 + 20)"
    by (rule decay_power [OF q(1) le1 n, where r = 15604]) simp
qed

text \<open>
  Claim C6, for what the silence provably does: 50000 samples of silence advance each
  side 25000 times and multiply both roll-off values by \<open>(1 - rollAmount) ^ 25000\<close>,
  whatever the object and the sample rate. For sample rates from 44100 to 192000 and
  roll-off values of magnitude up to \<open>2 ^ 1024\<close> before the silence, both are below
  \<open>1 / 10 ^ 6\<close> in magnitude after it. Nothing is stated about the head bump values or the
  output samples.
\<close>

theorem silence_rolloff_decay:
  "iirMidRollerA (fst (tape_perform x (replicate 50000 0)))
     = iirMidRollerA x * (1 - RollAmount x) ^ 25000 \<and>
   iirMidRollerB (fst (tape_perform x (replicate 50000 0)))
     = iirMidRollerB x * (1 - RollAmount x) ^ 25000 \<and>
   (44100 \<le> x_sr x \<and> x_sr x \<le> 192000 \<and>
    \<bar>iirMidRollerA x\<bar> \<le> 2 ^ 1024 \<and> \<bar>iirMidRollerB x\<bar> \<le> 2 ^ 1024 \<longrightarrow>
      \<bar>iirMidRollerA (fst (tape_perform x (replicate 50000 0)))\<bar> < 1 / 10 ^ 6 \<and>
      \<bar>iirMidRollerB (fst (tape_perform x (replicate 50000 0)))\<bar> < 1 / 10 ^ 6)"
proof -
  have "(50000::nat) = 2 * 25000" by simp
  then have f: "iirMidRollerA (fst (tape_perform x (replicate 50000 0)))
     = iirMidRollerA x * (1 - RollAmount x) ^ 25000"
    "iirMidRollerB (fst (tape_perform x (replicate 50000 0)))
     = iirMidRollerB x * (1 - RollAmount x) ^ 25000"
    using tape_perform_silence [of x 25000] by (simp_all only:)
  have "\<bar>iirMidRollerA x * (1 - RollAmount x) ^ 25000\<bar> < 1 / 10 ^ 6 \<and>
      \<bar>iirMidRollerB x * (1 - RollAmount x) ^ 25000\<bar> < 1 / 10 ^ 6"
    if "44100 \<le> x_sr x" "x_sr x \<le> 192000"
      "\<bar>iirMidRollerA x\<bar> \<le> 2 ^ 1024" "\<bar>iirMidRollerB x\<bar> \<le> 2 ^ 1024"
    using half_power_absorb [OF that(3) silence_factor [OF that(1,2)]]
      half_power_absorb [OF that(4) silence_factor [OF that(1,2)]]
    by (rule conjI)
  then show ?thesis
    unfolding f by blast
qed

theorem silence_rolloff_decay_witness:
  "\<bar>iirMidRollerA (fst (tape_perform (tape_zero\<lparr>x_sr := 44100, iirMidRollerA := 1\<rparr>)
        (replicate 50000 0)))\<bar> < 1 / 10 ^ 6"
proof -
  let ?x = "tape_zero\<lparr>x_sr := 44100, iirMidRollerA := 1\<rparr>"
  have h: "44100 \<le> x_sr ?x \<and> x_sr ?x \<le> 192000 \<and>
    \<bar>iirMidRollerA ?x\<bar> \<le> 2 ^ 1024 \<and> \<bar>iirMidRollerB ?x\<bar> \<le> 2 ^ 1024"
    by (simp add: tape_zero_def)
  note t = silence_rolloff_decay [of ?x]
  from t h show ?thesis by blast
qed

section \<open>Finite values: the two readings agree\<close>

lemma if_Fin: "(if c then Fin a else Fin b) = Fin (if c then a else b)"
  by simp

lemma minus_Fin [simp]: "Fin a - Fin b = Fin (a - b)"
  by (simp add: minus_dbl_def)

lemma divide_Fin: "b \<noteq> 0 \<Longrightarrow> Fin a / Fin b = Fin (a / b)"
  by simp

lemma asin_Fin: "- 1 \<le> a \<Longrightarrow> a \<le> 1 \<Longrightarrow> asin_d (Fin a) = Fin (arcsin a)"
  by simp

lemma spiral_saturate_Fin: "spiral_saturate_d (Fin v) = Fin (spiral_saturate v)"
  by (simp add: spiral_saturate_d_def spiral_saturate_def Let_def)

lemma adclip_Fin:
  "adclip_d (Fin v) (Fin m) = (Fin (fst (adclip v m)), Fin (snd (adclip v m)))"
  by (simp add: adclip_d_def adclip_def Let_def)

lemma hard_clip_Fin: "hard_clip_d (Fin v) = Fin (hard_clip v)"
  by (simp add: hard_clip_d_def hard_clip_def Let_def)

lemma tape_soften_Fin: "tape_soften_d (Fin h) (Fin v) = Fin (tape_soften h v)"
  by (simp add: tape_soften_d_def tape_soften_def Let_def)

lemma tape_suppress_Fin: "tape_suppress_d (Fin v) = Fin (tape_suppress v)"
  by (simp add: tape_suppress_d_def tape_suppress_def)

lemma restrain_Fin: "restrain_d (Fin d) (Fin h) = Fin (restrain d h)"
  by (simp add: restrain_d_def restrain_def Let_def)

lemma embed_fields [simp]:
  "x_sr_d (embed x) = Fin (x_sr x)"
  "iirMidRollerA_d (embed x) = Fin (iirMidRollerA x)"
  "iirMidRollerB_d (embed x) = Fin (iirMidRollerB x)"
  "iirHeadBumpA_d (embed x) = Fin (iirHeadBumpA x)"
  "iirHeadBumpB_d (embed x) = Fin (iirHeadBumpB x)"
  "biquadA_d (embed x) i = Fin (biquadA x i)"
  "biquadB_d (embed x) i = Fin (biquadB x i)"
  "lastSample_d (embed x) = Fin (lastSample x)"
  "flip_d (embed x) = flip x"
  by (simp_all add: embed_def)

lemma embed_updates:
  "(embed x)\<lparr>iirMidRollerA_d := Fin a\<rparr> = embed (x\<lparr>iirMidRollerA := a\<rparr>)"
  "(embed x)\<lparr>iirMidRollerB_d := Fin a\<rparr> = embed (x\<lparr>iirMidRollerB := a\<rparr>)"
  "(embed x)\<lparr>iirHeadBumpA_d := Fin a\<rparr> = embed (x\<lparr>iirHeadBumpA := a\<rparr>)"
  "(embed x)\<lparr>iirHeadBumpB_d := Fin a\<rparr> = embed (x\<lparr>iirHeadBumpB := a\<rparr>)"
  "(embed x)\<lparr>lastSample_d := Fin a\<rparr> = embed (x\<lparr>lastSample := a\<rparr>)"
  "(embed x)\<lparr>x_sr_d := Fin a\<rparr> = embed (x\<lparr>x_sr := a\<rparr>)"
  "(embed x)\<lparr>x_f_d := Fin a\<rparr> = embed (x\<lparr>x_f := a\<rparr>)"
  "(embed x)\<lparr>flip_d := n\<rparr> = embed (x\<lparr>flip := n\<rparr>)"
  "(embed x)\<lparr>biquadA_d := (\<lambda>i. Fin (f i))\<rparr> = embed (x\<lparr>biquadA := f\<rparr>)"
  "(embed x)\<lparr>biquadB_d := (\<lambda>i. Fin (f i))\<rparr> = embed (x\<lparr>biquadB := f\<rparr>)"
  by (simp_all add: embed_def)

lemma Fin_fun_upd: "(\<lambda>i. Fin (f i))(k := Fin a) = (\<lambda>i. Fin ((f(k := a)) i))"
  by (simp add: fun_eq_iff)

lemma clamp_unit_range:
  fixes t :: real
  shows "- 1 \<le> (if (if 1 < t then 1 else t) < - 1 then - 1 else if 1 < t then 1 else t)"
    "(if (if 1 < t then 1 else t) < - 1 then - 1 else if 1 < t then 1 else t) \<le> 1"
  by simp_all

lemma tape_sideA_Fin:
  "tape_sideA_d (Fin roll) (Fin bump) (embed x) (Fin v)
     = (embed (fst (tape_sideA roll bump x v)), Fin (snd (tape_sideA roll bump x v)))"
proof -
  let ?h = "iirHeadBumpA x + v * 0.05"
  let ?t = "sin (?h - ?h * ?h * ?h * bump) * biquadA x 2 + biquadA x 7"
  have bq: "biquadA_d (embed x) = (\<lambda>i. Fin (biquadA x i))"
    by (simp add: fun_eq_iff)
  show ?thesis
    unfolding tape_sideA_d_def tape_sideA_def Let_def bq
    by (simp add: if_Fin Fin_fun_upd embed_updates clamp_unit_range del: fun_upd_apply)
qed

lemma tape_sideB_Fin:
  "tape_sideB_d (Fin roll) (Fin bump) (embed x) (Fin v)
     = (embed (fst (tape_sideB roll bump x v)), Fin (snd (tape_sideB roll bump x v)))"
proof -
  have bq: "biquadB_d (embed x) = (\<lambda>i. Fin (biquadB x i))"
    by (simp add: fun_eq_iff)
  show ?thesis
    unfolding tape_sideB_d_def tape_sideB_def Let_def bq
    by (simp add: if_Fin Fin_fun_upd embed_updates clamp_unit_range del: fun_upd_apply)
qed

lemma tape_filters_Fin:
  "tape_filters_d (Fin roll) (Fin bump) (embed x) (Fin v)
     = (embed (fst (tape_filters roll bump x v)), Fin (snd (tape_filters roll bump x v)))"
  by (simp add: tape_filters_d_def tape_filters_def tape_sideA_Fin tape_sideB_Fin split_beta
      embed_updates)

lemma tape_restrain_Fin:
  "tape_restrain_d (Fin d) (embed x) = embed (tape_restrain d x)"
  by (simp add: tape_restrain_d_def tape_restrain_def restrain_Fin embed_updates)

lemma tape_sample_Fin:
  "tape_sample_d store (Fin roll) (Fin bump) (embed x) (Fin v)
     = (embed (fst (tape_sample roll bump x v)), store (Fin (snd (tape_sample roll bump x v))))"
  by (simp add: tape_sample_d_def tape_sample_def Let_def split_beta tape_filters_Fin
      tape_soften_Fin spiral_saturate_Fin tape_suppress_Fin tape_restrain_Fin adclip_Fin
      hard_clip_Fin embed_updates)

lemma tape_loop_Fin:
  "tape_loop_d store (Fin roll) (Fin bump) (embed x) (map Fin block)
     = (embed (fst (tape_loop roll bump x block)),
        map (\<lambda>v. store (Fin v)) (snd (tape_loop roll bump x block)))"
  by (induction block arbitrary: x) (simp_all add: tape_sample_Fin split_beta Let_def)

lemma coefs_Fin:
  assumes "rate_ok x"
  shows "RollAmount_d (embed x) = Fin (RollAmount x)"
    "HeadBumpFreq_d (embed x) = Fin (HeadBumpFreq x)"
    "coef_a0_d (embed x) = Fin (coef_a0 x)" "coef_a1_d (embed x) = Fin (coef_a1 x)"
    "coef_a2_d (embed x) = Fin (coef_a2 x)" "coef_b1_d (embed x) = Fin (coef_b1 x)"
    "coef_b2_d (embed x) = Fin (coef_b2 x)"
proof -
  have r: "x_sr x \<noteq> 0" and d: "1.0 + coefK x / biquadQ + coefK x * coefK x \<noteq> 0"
    using assms by (simp_all add: rate_ok_def)
  have s: "overallscale_d (embed x) = Fin (overallscale x)"
    by (simp add: overallscale_d_def overallscale_def)
  have s0: "overallscale x \<noteq> 0"
    using r by (simp add: overallscale_def)
  show "RollAmount_d (embed x) = Fin (RollAmount x)"
    using s0 by (simp add: RollAmount_d_def RollAmount_def s)
  show "HeadBumpFreq_d (embed x) = Fin (HeadBumpFreq x)"
    using s0 by (simp add: HeadBumpFreq_d_def HeadBumpFreq_def s)
  have f: "biquadFreq_d (embed x) = Fin (biquadFreq x)"
    using s0 by (simp add: biquadFreq_d_def biquadFreq_def s)
  have k: "coefK_d (embed x) = Fin (coefK x)"
    by (simp add: coefK_d_def coefK_def f)
  have q: "biquadQ \<noteq> 0" by (simp add: biquadQ_def)
  have n: "coef_norm_d (embed x) = Fin (coef_norm x)"
    using d q by (simp add: coef_norm_d_def coef_norm_def k)
  show "coef_a0_d (embed x) = Fin (coef_a0 x)"
    using q by (simp add: coef_a0_d_def coef_a0_def k n)
  then show "coef_a2_d (embed x) = Fin (coef_a2 x)"
    by (simp add: coef_a2_d_def coef_a2_def)
  show "coef_a1_d (embed x) = Fin (coef_a1 x)"
    by (simp add: coef_a1_d_def coef_a1_def)
  show "coef_b1_d (embed x) = Fin (coef_b1 x)"
    by (simp add: coef_b1_d_def coef_b1_def k n)
  show "coef_b2_d (embed x) = Fin (coef_b2 x)"
    using q by (simp add: coef_b2_d_def coef_b2_def k n)
qed

lemma tape_setup_Fin:
  assumes "rate_ok x"
  shows "tape_setup_d (embed x) = embed (tape_setup x)"
proof -
  have a: "biquadA_d (embed x) = (\<lambda>i. Fin (biquadA x i))"
    and b: "biquadB_d (embed x) = (\<lambda>i. Fin (biquadB x i))"
    by (simp_all add: fun_eq_iff)
  show ?thesis
    unfolding tape_setup_d_def tape_setup_def coefs_Fin [OF assms] a b
    by (simp add: Fin_fun_upd embed_updates del: fun_upd_apply)
qed

lemma tape_perform_Fin:
  assumes "rate_ok x"
  shows "tape_perform_d store (embed x) (map Fin block)
     = (embed (fst (tape_perform x block)),
        map (\<lambda>v. store (Fin v)) (snd (tape_perform x block)))"
  by (simp add: tape_perform_d_def tape_perform_def coefs_Fin [OF assms] tape_setup_Fin [OF assms]
      tape_loop_Fin)

lemma tape_new_Fin: "tape_new_d (embed x) = embed (tape_new x)"
proof -
  have "(\<lambda>i. if i < 9 then Fin 0.0 else biquadA_d (embed x) i)
      = (\<lambda>i. Fin (if i < 9 then 0.0 else biquadA x i))"
    "(\<lambda>i. if i < 9 then Fin 0.0 else biquadB_d (embed x) i)
      = (\<lambda>i. Fin (if i < 9 then 0.0 else biquadB x i))"
    by (simp_all add: fun_eq_iff)
  then show ?thesis
    unfolding tape_new_d_def tape_new_def
    by (simp add: embed_updates)
qed

lemma tape_dsp_Fin: "tape_dsp_d (embed x) (Fin r) = embed (tape_dsp x r)"
  by (simp add: tape_dsp_d_def tape_dsp_def embed_updates)

lemma rate_ok_above:
  assumes "636 \<le> x_sr x"
  shows "rate_ok x"
proof -
  have pos: "0 < x_sr x" using assms by simp
  have f: "biquadFreq x = 317.52 / x_sr x"
    by (simp add: biquadFreq_def overallscale_def)
  have "0 < biquadFreq x" using pos by (simp add: f)
  moreover have "biquadFreq x < 1 / 2"
    using assms pos by (simp add: f pos_divide_less_eq)
  ultimately have "0 < pi * biquadFreq x" "pi * biquadFreq x < pi / 2"
    by simp_all
  then have "0 < coefK x"
    unfolding coefK_def M_PI_def by (rule tan_gt_zero)
  then have "0 < coefK x / biquadQ" "0 < coefK x * coefK x"
    by (simp_all add: biquadQ_def)
  then have "1.0 + coefK x / biquadQ + coefK x * coefK x \<noteq> 0"
    by simp
  then show ?thesis using pos by (simp add: rate_ok_def)
qed

lemma block_ok_rate: "block_ok x block \<Longrightarrow> rate_ok x"
  by (simp add: block_ok_def rate_ok_above)

lemma tape_events_Fin:
  "session_ok x es \<Longrightarrow>
   tape_events_d store (embed x) (map embed_event es) = embed (tape_events x es)"
proof (induction es arbitrary: x)
  case Nil
  then show ?case by simp
next
  case (Cons e es)
  show ?case
  proof (cases e)
    case (Dsp r)
    then show ?thesis using Cons by (simp add: tape_dsp_Fin)
  next
    case (Perform block)
    from Cons.prems Perform have r: "rate_ok x"
      and s: "session_ok (fst (tape_perform x block)) es"
      by (auto dest: block_ok_rate)
    show ?thesis using Perform Cons.IH [OF s] by (simp add: tape_perform_Fin [OF r])
  qed
qed

section \<open>NaN passes every comparison\<close>

lemma NaN_right [simp]: "x + NaN = NaN" "x * NaN = NaN" "x - NaN = NaN" "x / NaN = NaN"
  by (cases x; simp add: minus_dbl_def)+

lemma NaN_left [simp]: "NaN - x = NaN"
  by (simp add: minus_dbl_def)

lemma NaN_compare [simp]: "\<not> x < NaN" "\<not> x \<le> NaN"
  by (cases x; simp)+

lemma adclip_NaN: "fst (adclip_d NaN m) = NaN"
  by (simp add: adclip_d_def Let_def)

lemma hard_clip_NaN: "hard_clip_d NaN = NaN"
  by (simp add: hard_clip_d_def Let_def)

lemma spiral_saturate_NaN: "spiral_saturate_d NaN = NaN"
  by (simp add: spiral_saturate_d_def Let_def)

lemma tape_soften_NaN: "tape_soften_d h NaN = NaN"
  by (simp add: tape_soften_d_def Let_def)

lemma restrain_NaN: "restrain_d d NaN = NaN"
  by (simp add: restrain_d_def Let_def)

lemma tape_sample_NaN: "snd (tape_sample_d store roll bump x NaN) = store NaN"
  by (simp add: tape_sample_d_def Let_def split_beta tape_soften_NaN spiral_saturate_NaN
      adclip_NaN hard_clip_NaN)

lemma tape_sideB_NaN: "iirHeadBumpB_d (fst (tape_sideB_d roll bump x NaN)) = NaN"
  by (simp add: tape_sideB_d_def Let_def)

lemma tape_sideA_NaN: "iirHeadBumpA_d (fst (tape_sideA_d roll bump x NaN)) = NaN"
  by (simp add: tape_sideA_d_def Let_def)

lemma tape_sample_NaN_bump:
  "flip_d x = 0 \<Longrightarrow> iirHeadBumpB_d (fst (tape_sample_d store roll bump x NaN)) = NaN"
  "flip_d x \<noteq> 0 \<Longrightarrow> iirHeadBumpA_d (fst (tape_sample_d store roll bump x NaN)) = NaN"
  by (simp_all add: tape_sample_d_def tape_filters_d_def tape_restrain_d_def Let_def split_beta
      tape_sideA_NaN tape_sideB_NaN restrain_NaN)

lemma store_float_NaN: "store_float NaN = NaN"
  by (simp add: store_float_def)

lemma tape_perform_one:
  "snd (tape_perform_d store x [v])
     = [snd (tape_sample_d store (RollAmount_d x) (HeadBumpFreq_d x) (tape_setup_d x) v)]"
  "fst (tape_perform_d store x [v])
     = fst (tape_sample_d store (RollAmount_d x) (HeadBumpFreq_d x) (tape_setup_d x) v)"
  by (simp_all add: tape_perform_d_def split_beta Let_def)

lemma zero_rate_coefs:
  assumes "x_sr_d x = Fin 0"
  shows "RollAmount_d x = PInf" "HeadBumpFreq_d x = PInf"
  using assms softness_range
  by (simp_all add: RollAmount_d_def HeadBumpFreq_d_def overallscale_d_def)

lemma zero_rate_sideB:
  assumes "iirHeadBumpB_d x = Fin 0" "iirMidRollerB_d x = Fin 0"
  shows "iirHeadBumpB_d (fst (tape_sideB_d PInf PInf x (Fin 1))) = NaN"
    "snd (tape_sideB_d PInf PInf x (Fin 1)) = NaN"
  using assms by (simp_all add: tape_sideB_d_def Let_def minus_dbl_def)

lemma zero_rate_sample:
  assumes "flip_d x = 0" "iirHeadBumpB_d x = Fin 0" "iirMidRollerB_d x = Fin 0"
  shows "snd (tape_sample_d store PInf PInf x (Fin 1)) = store NaN"
    "iirHeadBumpB_d (fst (tape_sample_d store PInf PInf x (Fin 1))) = NaN"
proof -
  have f: "iirHeadBumpB_d (fst (tape_filters_d PInf PInf x (Fin 1))) = NaN"
    using assms zero_rate_sideB [OF assms(2,3)]
    by (simp add: tape_filters_d_def split_beta)
  show b: "iirHeadBumpB_d (fst (tape_sample_d store PInf PInf x (Fin 1))) = NaN"
    by (simp add: tape_sample_d_def tape_restrain_d_def Let_def split_beta INPUT_GAIN_def f
        restrain_NaN)
  have "snd (tape_sample_d store PInf PInf x (Fin 1))
      = store (hard_clip_d (fst (adclip_d NaN
          (lastSample_d (tape_restrain_d
             (tape_suppress_d (spiral_saturate_d (tape_soften_d
                (snd (tape_filters_d PInf PInf x (Fin 1))) (Fin 1))))
             (fst (tape_filters_d PInf PInf x (Fin 1))))))))"
    by (simp add: tape_sample_d_def tape_restrain_d_def Let_def split_beta INPUT_GAIN_def f
        restrain_NaN)
  then show "snd (tape_sample_d store PInf PInf x (Fin 1)) = store NaN"
    by (simp add: adclip_NaN hard_clip_NaN)
qed

lemma hard_clip_d_cases:
  "hard_clip_d w = NaN \<or> (\<exists>r. hard_clip_d w = Fin r \<and> - 0.99 \<le> r \<and> r \<le> 0.99)"
proof (cases w)
  case (Fin a)
  then show ?thesis using hard_clip_bounds [of a] by (simp add: hard_clip_Fin)
next
  case PInf
  then have "hard_clip_d w = Fin 0.99" by (simp add: hard_clip_d_def Let_def)
  moreover have "- 0.99 \<le> (0.99 :: real) \<and> (0.99 :: real) \<le> 0.99" by simp
  ultimately show ?thesis by blast
next
  case NInf
  then have "hard_clip_d w = Fin (- 0.99)" by (simp add: hard_clip_d_def Let_def)
  moreover have "- 0.99 \<le> (- 0.99 :: real) \<and> (- 0.99 :: real) \<le> 0.99" by simp
  ultimately show ?thesis by blast
next
  case NaN
  then show ?thesis by (simp add: hard_clip_NaN)
qed

lemma tape_sample_d_out:
  "\<exists>w. snd (tape_sample_d store roll bump x v) = store w \<and>
       (w = NaN \<or> (\<exists>r. w = Fin r \<and> - 0.99 \<le> r \<and> r \<le> 0.99))"
proof -
  have "\<exists>u. snd (tape_sample_d store roll bump x v) = store (hard_clip_d u)"
    unfolding tape_sample_d_def Let_def split_beta snd_conv by (rule exI) (rule refl)
  then show ?thesis using hard_clip_d_cases by blast
qed

lemma tape_loop_d_length: "length (snd (tape_loop_d store roll bump x block)) = length block"
  by (induction block arbitrary: x) (simp_all add: split_beta Let_def)

lemma tape_loop_d_out:
  "y \<in> set (snd (tape_loop_d store roll bump x block)) \<Longrightarrow>
   \<exists>w. y = store w \<and> (w = NaN \<or> (\<exists>r. w = Fin r \<and> - 0.99 \<le> r \<and> r \<le> 0.99))"
proof (induction block arbitrary: x)
  case Nil
  then show ?case by simp
next
  case (Cons v rest)
  then show ?case
    using tape_sample_d_out [of store roll bump x v]
    by (auto simp: split_beta Let_def)
qed

text \<open>
  A NaN sample, and equally a sample rate of 0, make the loop write NaN, which is in no
  interval: the two comparisons of the final hard clip are both false on it.
\<close>

theorem nan_output_counterexample:
  "\<not> (Fin (- 0.99)
        \<le> hd (snd (tape_perform_d store_float (embed (tape_dsp (tape_new tape_zero) 44100)) [NaN]))) \<and>
   \<not> (Fin (- 0.99)
        \<le> hd (snd (tape_perform_d store_float (embed (tape_dsp (tape_new tape_zero) 0)) [Fin 1])))"
proof -
  let ?x = "embed (tape_dsp (tape_new tape_zero) 0)"
  have r: "RollAmount_d ?x = PInf" "HeadBumpFreq_d ?x = PInf"
    by (rule zero_rate_coefs; simp add: tape_dsp_def)+
  have s: "flip_d (tape_setup_d ?x) = 0" "iirHeadBumpB_d (tape_setup_d ?x) = Fin 0"
    "iirMidRollerB_d (tape_setup_d ?x) = Fin 0"
    by (simp_all add: tape_setup_d_def tape_dsp_def tape_new_def)
  have "hd (snd (tape_perform_d store_float ?x [Fin 1])) = NaN"
    by (simp add: tape_perform_one r zero_rate_sample(1) [OF s] store_float_NaN)
  moreover have "hd (snd (tape_perform_d store_float
      (embed (tape_dsp (tape_new tape_zero) 44100)) [NaN])) = NaN"
    by (simp add: tape_perform_one tape_sample_NaN store_float_NaN)
  ultimately show ?thesis by simp
qed

text \<open>
  Claim C1, for what the final hard clip guarantees: \<^const>\<open>tape_perform_d\<close> writes one
  sample per input sample, and each is the conversion by \<open>store\<close> of a double that is
  NaN or lies in the closed interval from -0.99 to 0.99, whatever the block, the object
  and the rate, infinities included. From construction on, in a history of \<^verbatim>\<open>tape_dsp\<close>
  and \<^verbatim>\<open>tape_perform\<close> calls all of whose blocks have a sample rate of at least 636 and
  samples within the range of binary32, arithmetic taken as exact, no NaN arises: the
  samples written are the conversions of the values that the real-valued reading
  computes, all between -0.99 and 0.99.
\<close>

theorem perform_output_clipped:
  "length (snd (tape_perform_d store x block)) = length block \<and>
   (\<forall>y \<in> set (snd (tape_perform_d store x block)).
      \<exists>w. y = store w \<and> (w = NaN \<or> (\<exists>r. w = Fin r \<and> - 0.99 \<le> r \<and> r \<le> 0.99))) \<and>
   (session_ok (tape_new x0) es \<and> block_ok (tape_events (tape_new x0) es) vs \<longrightarrow>
      snd (tape_perform_d store
             (tape_events_d store (tape_new_d (embed x0)) (map embed_event es)) (map Fin vs))
        = map (\<lambda>r. store (Fin r)) (snd (tape_perform (tape_events (tape_new x0) es) vs)) \<and>
      (\<forall>r \<in> set (snd (tape_perform (tape_events (tape_new x0) es) vs)). - 0.99 \<le> r \<and> r \<le> 0.99))"
proof (intro conjI impI ballI)
  show "length (snd (tape_perform_d store x block)) = length block"
    by (simp add: tape_perform_d_def tape_loop_d_length)
next
  fix y assume "y \<in> set (snd (tape_perform_d store x block))"
  then show "\<exists>w. y = store w \<and> (w = NaN \<or> (\<exists>r. w = Fin r \<and> - 0.99 \<le> r \<and> r \<le> 0.99))"
    unfolding tape_perform_d_def by (rule tape_loop_d_out)
next
  assume a: "session_ok (tape_new x0) es \<and> block_ok (tape_events (tape_new x0) es) vs"
  then have e: "tape_events_d store (tape_new_d (embed x0)) (map embed_event es)
      = embed (tape_events (tape_new x0) es)"
    by (simp add: tape_new_Fin tape_events_Fin)
  from a have "rate_ok (tape_events (tape_new x0) es)"
    by (auto dest: block_ok_rate)
  then show "snd (tape_perform_d store
             (tape_events_d store (tape_new_d (embed x0)) (map embed_event es)) (map Fin vs))
        = map (\<lambda>r. store (Fin r)) (snd (tape_perform (tape_events (tape_new x0) es) vs))"
    unfolding e by (simp add: tape_perform_Fin)
next
  fix r assume "r \<in> set (snd (tape_perform (tape_events (tape_new x0) es) vs))"
  then show "- 0.99 \<le> r" "r \<le> 0.99"
    using perform_output_bounded [of "tape_events (tape_new x0) es" vs] by blast+
qed

theorem perform_output_clipped_witness:
  "snd (tape_perform_d store_double
          (tape_events_d store_double (tape_new_d (embed tape_zero)) (map embed_event [Dsp 44100]))
          (map Fin [2, - 3]))
     = map (\<lambda>r. store_double (Fin r))
         (snd (tape_perform (tape_events (tape_new tape_zero) [Dsp 44100]) [2, - 3])) \<and>
   length (snd (tape_perform_d store_double (embed tape_zero) (map Fin [2, - 3]))) = 2"
proof -
  note t = perform_output_clipped [where ?x0.0 = tape_zero and store = store_double
        and es = "[Dsp 44100]" and vs = "[2, - 3]"
        and x = "embed tape_zero" and block = "map Fin [2, - 3]"]
  have "session_ok (tape_new tape_zero) [Dsp 44100]" by simp
  moreover have "block_ok (tape_events (tape_new tape_zero) [Dsp 44100]) [2, - 3]"
    by (simp add: block_ok_def tape_dsp_def)
  ultimately have "snd (tape_perform_d store_double
          (tape_events_d store_double (tape_new_d (embed tape_zero)) (map embed_event [Dsp 44100]))
          (map Fin [2, - 3]))
     = map (\<lambda>r. store_double (Fin r))
         (snd (tape_perform (tape_events (tape_new tape_zero) [Dsp 44100]) [2, - 3]))"
    using t by blast
  moreover from t have "length (snd (tape_perform_d store_double (embed tape_zero) (map Fin [2, - 3])))
     = length (map Fin [2, - 3 :: real])"
    by blast
  ultimately show ?thesis by simp
qed

section \<open>The head bump values over doubles\<close>

lemma asin_d_range: "asin_d w = NaN \<or> (\<exists>a. asin_d w = Fin a \<and> \<bar>a\<bar> \<le> pi / 2)"
proof (cases w)
  case (Fin a)
  show ?thesis
  proof (cases "- 1 \<le> a \<and> a \<le> 1")
    case True
    then have "\<bar>arcsin a\<bar> \<le> pi / 2" using arcsin_abs [of a] by blast
    moreover have "asin_d w = Fin (arcsin a)" using True Fin by simp
    ultimately show ?thesis by blast
  next
    case False
    then have "asin_d w = NaN" using Fin by auto
    then show ?thesis by blast
  qed
qed simp_all

lemma spiral_d_infinite:
  "spiral_saturate_d PInf = spiral_saturate_d (Fin 1.2533141373155)"
  "spiral_saturate_d NInf = spiral_saturate_d (Fin (- 1.2533141373155))"
  by (simp_all add: spiral_saturate_d_def Let_def)

lemma spiral_d_range:
  "spiral_saturate_d w = NaN \<or> (\<exists>s. spiral_saturate_d w = Fin s \<and> \<bar>s\<bar> \<le> 1)"
  by (cases w) (simp_all add: spiral_d_infinite spiral_saturate_Fin spiral_le_one spiral_saturate_NaN)

lemma suppress_d_range:
  "tape_suppress_d (spiral_saturate_d w) = NaN \<or>
   (\<exists>d. tape_suppress_d (spiral_saturate_d w) = Fin d \<and> 0 \<le> d \<and> d \<le> 0.00013)"
proof -
  from spiral_d_range [of w] show ?thesis
  proof
    assume "spiral_saturate_d w = NaN"
    then show ?thesis by (simp add: tape_suppress_d_def)
  next
    assume "\<exists>s. spiral_saturate_d w = Fin s \<and> \<bar>s\<bar> \<le> 1"
    then obtain s where s: "spiral_saturate_d w = Fin s" "\<bar>s\<bar> \<le> 1" by blast
    have "0 \<le> tape_suppress s \<and> tape_suppress s \<le> 0.00013"
      using s(2) by (simp add: tape_suppress_def)
    then show ?thesis by (simp add: s(1) tape_suppress_Fin)
  qed
qed

lemma restrain_d_NaN: "restrain_d NaN (Fin a) = Fin a"
  by (simp add: restrain_d_def Let_def)

lemma restrain_d_range:
  assumes "S = NaN \<or> (\<exists>d. S = Fin d \<and> 0 \<le> d)"
    and "h = NaN \<or> (\<exists>a. h = Fin a \<and> \<bar>a\<bar> \<le> pi / 2)"
  shows "restrain_d S h = NaN \<or> (\<exists>a. restrain_d S h = Fin a \<and> \<bar>a\<bar> \<le> pi / 2)"
proof (cases "h = NaN")
  case True
  then show ?thesis by (simp add: restrain_NaN)
next
  case False
  with assms(2) obtain a where a: "h = Fin a" "\<bar>a\<bar> \<le> pi / 2" by blast
  show ?thesis
  proof (cases "S = NaN")
    case True
    then show ?thesis using a by (simp add: restrain_d_NaN)
  next
    case False
    with assms(1) obtain d where d: "S = Fin d" "0 \<le> d" by blast
    have "\<bar>restrain d a\<bar> \<le> pi / 2"
      using restrain_abs [OF d(2), of a] a(2) by linarith
    then show ?thesis by (simp add: a(1) d(1) restrain_Fin)
  qed
qed


lemma tape_filters_d_hb:
  "\<exists>w. iirHeadBumpA_d (fst (tape_filters_d roll bump x v))
          = (if flip_d x \<noteq> 0 then asin_d w else iirHeadBumpA_d x) \<and>
       iirHeadBumpB_d (fst (tape_filters_d roll bump x v))
          = (if flip_d x \<noteq> 0 then iirHeadBumpB_d x else asin_d w)"
proof (cases "flip_d x \<noteq> 0")
  case True
  have "\<exists>w. iirHeadBumpA_d (fst (tape_sideA_d roll bump x v)) = asin_d w"
    unfolding tape_sideA_d_def Let_def fst_conv by (rule exI) simp
  moreover have "iirHeadBumpB_d (fst (tape_sideA_d roll bump x v)) = iirHeadBumpB_d x"
    by (simp add: tape_sideA_d_def Let_def)
  ultimately show ?thesis using True by (simp add: tape_filters_d_def split_beta)
next
  case False
  have "\<exists>w. iirHeadBumpB_d (fst (tape_sideB_d roll bump x v)) = asin_d w"
    unfolding tape_sideB_d_def Let_def fst_conv by (rule exI) simp
  moreover have "iirHeadBumpA_d (fst (tape_sideB_d roll bump x v)) = iirHeadBumpA_d x"
    by (simp add: tape_sideB_d_def Let_def)
  ultimately show ?thesis using False by (simp add: tape_filters_d_def split_beta)
qed

lemma tape_sample_d_hb_fields:
  "\<exists>u. iirHeadBumpA_d (fst (tape_sample_d store roll bump x v))
          = restrain_d (tape_suppress_d (spiral_saturate_d u))
              (iirHeadBumpA_d (fst (tape_filters_d roll bump x (v * Fin INPUT_GAIN)))) \<and>
       iirHeadBumpB_d (fst (tape_sample_d store roll bump x v))
          = restrain_d (tape_suppress_d (spiral_saturate_d u))
              (iirHeadBumpB_d (fst (tape_filters_d roll bump x (v * Fin INPUT_GAIN))))"
  unfolding tape_sample_d_def Let_def split_beta fst_conv
  by (rule exI) (simp add: tape_restrain_d_def)

lemma tape_sample_d_hb:
  assumes "iirHeadBumpA_d x = NaN \<or> (\<exists>a. iirHeadBumpA_d x = Fin a \<and> \<bar>a\<bar> \<le> pi / 2)"
    and "iirHeadBumpB_d x = NaN \<or> (\<exists>a. iirHeadBumpB_d x = Fin a \<and> \<bar>a\<bar> \<le> pi / 2)"
  shows "iirHeadBumpA_d (fst (tape_sample_d store roll bump x v)) = NaN \<or>
      (\<exists>a. iirHeadBumpA_d (fst (tape_sample_d store roll bump x v)) = Fin a \<and> \<bar>a\<bar> \<le> pi / 2)"
    and "iirHeadBumpB_d (fst (tape_sample_d store roll bump x v)) = NaN \<or>
      (\<exists>a. iirHeadBumpB_d (fst (tape_sample_d store roll bump x v)) = Fin a \<and> \<bar>a\<bar> \<le> pi / 2)"
proof -
  let ?f = "fst (tape_filters_d roll bump x (v * Fin INPUT_GAIN))"
  obtain w where w: "iirHeadBumpA_d ?f = (if flip_d x \<noteq> 0 then asin_d w else iirHeadBumpA_d x)"
    "iirHeadBumpB_d ?f = (if flip_d x \<noteq> 0 then iirHeadBumpB_d x else asin_d w)"
    using tape_filters_d_hb by blast
  have fa: "iirHeadBumpA_d ?f = NaN \<or> (\<exists>a. iirHeadBumpA_d ?f = Fin a \<and> \<bar>a\<bar> \<le> pi / 2)"
    unfolding w(1) using assms(1) asin_d_range [of w] by (cases "flip_d x \<noteq> 0") simp_all
  have fb: "iirHeadBumpB_d ?f = NaN \<or> (\<exists>a. iirHeadBumpB_d ?f = Fin a \<and> \<bar>a\<bar> \<le> pi / 2)"
    unfolding w(2) using assms(2) asin_d_range [of w] by (cases "flip_d x \<noteq> 0") simp_all
  obtain u where u: "iirHeadBumpA_d (fst (tape_sample_d store roll bump x v))
          = restrain_d (tape_suppress_d (spiral_saturate_d u)) (iirHeadBumpA_d ?f)"
      "iirHeadBumpB_d (fst (tape_sample_d store roll bump x v))
          = restrain_d (tape_suppress_d (spiral_saturate_d u)) (iirHeadBumpB_d ?f)"
    using tape_sample_d_hb_fields by blast
  have s: "tape_suppress_d (spiral_saturate_d u) = NaN \<or>
      (\<exists>d. tape_suppress_d (spiral_saturate_d u) = Fin d \<and> 0 \<le> d)"
    using suppress_d_range [of u] by blast
  show "iirHeadBumpA_d (fst (tape_sample_d store roll bump x v)) = NaN \<or>
      (\<exists>a. iirHeadBumpA_d (fst (tape_sample_d store roll bump x v)) = Fin a \<and> \<bar>a\<bar> \<le> pi / 2)"
    unfolding u(1) using s fa by (rule restrain_d_range)
  show "iirHeadBumpB_d (fst (tape_sample_d store roll bump x v)) = NaN \<or>
      (\<exists>a. iirHeadBumpB_d (fst (tape_sample_d store roll bump x v)) = Fin a \<and> \<bar>a\<bar> \<le> pi / 2)"
    unfolding u(2) using s fb by (rule restrain_d_range)
qed

lemma tape_loop_d_hb:
  assumes "iirHeadBumpA_d x = NaN \<or> (\<exists>a. iirHeadBumpA_d x = Fin a \<and> \<bar>a\<bar> \<le> pi / 2)"
    and "iirHeadBumpB_d x = NaN \<or> (\<exists>a. iirHeadBumpB_d x = Fin a \<and> \<bar>a\<bar> \<le> pi / 2)"
  shows "(iirHeadBumpA_d (fst (tape_loop_d store roll bump x block)) = NaN \<or>
      (\<exists>a. iirHeadBumpA_d (fst (tape_loop_d store roll bump x block)) = Fin a \<and> \<bar>a\<bar> \<le> pi / 2)) \<and>
     (iirHeadBumpB_d (fst (tape_loop_d store roll bump x block)) = NaN \<or>
      (\<exists>a. iirHeadBumpB_d (fst (tape_loop_d store roll bump x block)) = Fin a \<and> \<bar>a\<bar> \<le> pi / 2))"
  using assms
proof (induction block arbitrary: x)
  case Nil
  then show ?case by simp
next
  case (Cons v rest)
  note s = tape_sample_d_hb [OF Cons.prems, of store roll bump v]
  show ?case using Cons.IH [OF s] by (simp add: split_beta Let_def)
qed

lemma tape_event_d_hb:
  assumes "iirHeadBumpA_d x = NaN \<or> (\<exists>a. iirHeadBumpA_d x = Fin a \<and> \<bar>a\<bar> \<le> pi / 2)"
    and "iirHeadBumpB_d x = NaN \<or> (\<exists>a. iirHeadBumpB_d x = Fin a \<and> \<bar>a\<bar> \<le> pi / 2)"
  shows "(iirHeadBumpA_d (tape_event_d store x e) = NaN \<or>
      (\<exists>a. iirHeadBumpA_d (tape_event_d store x e) = Fin a \<and> \<bar>a\<bar> \<le> pi / 2)) \<and>
     (iirHeadBumpB_d (tape_event_d store x e) = NaN \<or>
      (\<exists>a. iirHeadBumpB_d (tape_event_d store x e) = Fin a \<and> \<bar>a\<bar> \<le> pi / 2))"
proof (cases e)
  case (Dsp_d r)
  then show ?thesis using assms by (simp add: tape_dsp_d_def)
next
  case (Perform_d block)
  have "iirHeadBumpA_d (tape_setup_d x) = iirHeadBumpA_d x"
    "iirHeadBumpB_d (tape_setup_d x) = iirHeadBumpB_d x"
    by (simp_all add: tape_setup_d_def)
  with assms have
    "iirHeadBumpA_d (tape_setup_d x) = NaN \<or>
       (\<exists>a. iirHeadBumpA_d (tape_setup_d x) = Fin a \<and> \<bar>a\<bar> \<le> pi / 2)"
    "iirHeadBumpB_d (tape_setup_d x) = NaN \<or>
       (\<exists>a. iirHeadBumpB_d (tape_setup_d x) = Fin a \<and> \<bar>a\<bar> \<le> pi / 2)"
    by simp_all
  from tape_loop_d_hb [OF this] show ?thesis
    using Perform_d by (simp add: tape_perform_d_def)
qed

lemma tape_events_d_hb:
  assumes "iirHeadBumpA_d x = NaN \<or> (\<exists>a. iirHeadBumpA_d x = Fin a \<and> \<bar>a\<bar> \<le> pi / 2)"
    and "iirHeadBumpB_d x = NaN \<or> (\<exists>a. iirHeadBumpB_d x = Fin a \<and> \<bar>a\<bar> \<le> pi / 2)"
  shows "(iirHeadBumpA_d (tape_events_d store x ds) = NaN \<or>
      (\<exists>a. iirHeadBumpA_d (tape_events_d store x ds) = Fin a \<and> \<bar>a\<bar> \<le> pi / 2)) \<and>
     (iirHeadBumpB_d (tape_events_d store x ds) = NaN \<or>
      (\<exists>a. iirHeadBumpB_d (tape_events_d store x ds) = Fin a \<and> \<bar>a\<bar> \<le> pi / 2))"
  using assms
proof (induction ds arbitrary: x)
  case Nil
  then show ?case by simp
next
  case (Cons e ds)
  from tape_event_d_hb [OF Cons.prems, of store e]
  show ?case using Cons.IH [of "tape_event_d store x e"] by simp
qed

text \<open>
  After a NaN sample on a new object, and equally after a finite sample at a sample rate
  of 0, the head bump value of side B is NaN: the clamps before \<^verbatim>\<open>asin\<close> and the guards
  after it compare false.
\<close>

theorem head_bump_nan_counterexample:
  "\<not> (\<bar>iirHeadBumpB_d (fst (tape_perform_d store_float
          (embed (tape_dsp (tape_new tape_zero) 44100)) [NaN]))\<bar> \<le> Fin (pi / 2)) \<and>
   \<not> (\<bar>iirHeadBumpB_d (fst (tape_perform_d store_float
          (embed (tape_dsp (tape_new tape_zero) 0)) [Fin 1]))\<bar> \<le> Fin (pi / 2))"
proof -
  let ?x = "embed (tape_dsp (tape_new tape_zero) 0)"
  let ?y = "embed (tape_dsp (tape_new tape_zero) 44100)"
  have r: "RollAmount_d ?x = PInf" "HeadBumpFreq_d ?x = PInf"
    by (rule zero_rate_coefs; simp add: tape_dsp_def)+
  have s: "flip_d (tape_setup_d ?x) = 0" "iirHeadBumpB_d (tape_setup_d ?x) = Fin 0"
    "iirMidRollerB_d (tape_setup_d ?x) = Fin 0"
    by (simp_all add: tape_setup_d_def tape_dsp_def tape_new_def)
  have "iirHeadBumpB_d (fst (tape_perform_d store_float ?x [Fin 1])) = NaN"
    by (simp add: tape_perform_one r zero_rate_sample(2) [OF s])
  moreover have "flip_d (tape_setup_d ?y) = 0"
    by (simp add: tape_setup_d_def tape_dsp_def tape_new_def)
  then have "iirHeadBumpB_d (fst (tape_perform_d store_float ?y [NaN])) = NaN"
    by (simp add: tape_perform_one tape_sample_NaN_bump)
  ultimately show ?thesis by simp
qed

text \<open>
  Claim C10, with NaN accounted for: from construction on, after any history of
  \<^verbatim>\<open>tape_dsp\<close> and \<^verbatim>\<open>tape_perform\<close> calls, whatever the rates and the samples (a block
  may end after any sample), each of the two head bump values is NaN or lies between
  \<open>- pi / 2\<close> and \<open>pi / 2\<close>: \<^verbatim>\<open>asin\<close> returns NaN or a value in that interval, the
  saturated sample is NaN or of magnitude at most 1, so \<open>suppress\<close> is NaN or not
  negative, and the guards then leave a value alone or move it towards zero. In a history
  all of whose blocks have a sample rate of at least 636 and samples within the range of
  binary32, arithmetic taken as exact, both values are finite and in that interval, so
  the head bump term added to a sample is at most \<open>pi * HEAD_BUMP\<close> in magnitude.
\<close>

theorem head_bump_bounded_d:
  "((iirHeadBumpA_d (tape_events_d store (tape_new_d y) ds) = NaN \<or>
      (\<exists>a. iirHeadBumpA_d (tape_events_d store (tape_new_d y) ds) = Fin a \<and> \<bar>a\<bar> \<le> pi / 2)) \<and>
    (iirHeadBumpB_d (tape_events_d store (tape_new_d y) ds) = NaN \<or>
      (\<exists>a. iirHeadBumpB_d (tape_events_d store (tape_new_d y) ds) = Fin a \<and> \<bar>a\<bar> \<le> pi / 2))) \<and>
   (session_ok (tape_new x) es \<longrightarrow>
      (\<exists>a b.
         iirHeadBumpA_d (tape_events_d store (tape_new_d (embed x)) (map embed_event es)) = Fin a \<and>
         iirHeadBumpB_d (tape_events_d store (tape_new_d (embed x)) (map embed_event es)) = Fin b \<and>
         \<bar>a\<bar> \<le> pi / 2 \<and> \<bar>b\<bar> \<le> pi / 2 \<and> \<bar>(a + b) * HEAD_BUMP\<bar> \<le> pi * HEAD_BUMP)) \<and>
   (asin_d w = NaN \<or> (\<exists>a. asin_d w = Fin a \<and> \<bar>a\<bar> \<le> pi / 2)) \<and>
   (spiral_saturate_d u = NaN \<or> (\<exists>s. spiral_saturate_d u = Fin s \<and> \<bar>s\<bar> \<le> 1)) \<and>
   (tape_suppress_d (spiral_saturate_d u) = NaN \<or>
      (\<exists>d. tape_suppress_d (spiral_saturate_d u) = Fin d \<and> 0 \<le> d))"
proof (intro conjI impI)
  have n: "iirHeadBumpA_d (tape_new_d y) = NaN \<or>
      (\<exists>a. iirHeadBumpA_d (tape_new_d y) = Fin a \<and> \<bar>a\<bar> \<le> pi / 2)"
    "iirHeadBumpB_d (tape_new_d y) = NaN \<or>
      (\<exists>a. iirHeadBumpB_d (tape_new_d y) = Fin a \<and> \<bar>a\<bar> \<le> pi / 2)"
    by (simp_all add: tape_new_d_def)
  note t = tape_events_d_hb [OF n, of store ds]
  from t show "iirHeadBumpA_d (tape_events_d store (tape_new_d y) ds) = NaN \<or>
      (\<exists>a. iirHeadBumpA_d (tape_events_d store (tape_new_d y) ds) = Fin a \<and> \<bar>a\<bar> \<le> pi / 2)"
    by (rule conjunct1)
  from t show "iirHeadBumpB_d (tape_events_d store (tape_new_d y) ds) = NaN \<or>
      (\<exists>a. iirHeadBumpB_d (tape_events_d store (tape_new_d y) ds) = Fin a \<and> \<bar>a\<bar> \<le> pi / 2)"
    by (rule conjunct2)
next
  let ?y = "tape_events (tape_new x) es"
  assume "session_ok (tape_new x) es"
  then have e: "tape_events_d store (tape_new_d (embed x)) (map embed_event es) = embed ?y"
    by (simp add: tape_new_Fin tape_events_Fin)
  have b: "\<bar>iirHeadBumpA ?y\<bar> \<le> pi / 2" "\<bar>iirHeadBumpB ?y\<bar> \<le> pi / 2"
    using head_bump_bounded [where x = x and es = es] by blast+
  show "\<exists>a b.
         iirHeadBumpA_d (tape_events_d store (tape_new_d (embed x)) (map embed_event es)) = Fin a \<and>
         iirHeadBumpB_d (tape_events_d store (tape_new_d (embed x)) (map embed_event es)) = Fin b \<and>
         \<bar>a\<bar> \<le> pi / 2 \<and> \<bar>b\<bar> \<le> pi / 2 \<and> \<bar>(a + b) * HEAD_BUMP\<bar> \<le> pi * HEAD_BUMP"
    unfolding e embed_fields using b bump_sum_bound [OF b] by blast
next
  show "asin_d w = NaN \<or> (\<exists>a. asin_d w = Fin a \<and> \<bar>a\<bar> \<le> pi / 2)"
    by (rule asin_d_range)
next
  show "spiral_saturate_d u = NaN \<or> (\<exists>s. spiral_saturate_d u = Fin s \<and> \<bar>s\<bar> \<le> 1)"
    by (rule spiral_d_range)
next
  show "tape_suppress_d (spiral_saturate_d u) = NaN \<or>
      (\<exists>d. tape_suppress_d (spiral_saturate_d u) = Fin d \<and> 0 \<le> d)"
    using suppress_d_range [of u] by blast
qed

theorem head_bump_bounded_d_witness:
  "\<exists>a b. iirHeadBumpA_d (tape_events_d store_float (tape_new_d (embed tape_zero))
            (map embed_event [Dsp 44100, Perform [1, - 1, 1]])) = Fin a \<and>
         iirHeadBumpB_d (tape_events_d store_float (tape_new_d (embed tape_zero))
            (map embed_event [Dsp 44100, Perform [1, - 1, 1]])) = Fin b \<and>
         \<bar>a\<bar> \<le> pi / 2 \<and> \<bar>b\<bar> \<le> pi / 2"
proof -
  have "block_ok (tape_dsp (tape_new tape_zero) 44100) [1, - 1, 1]"
    by (simp add: block_ok_def tape_dsp_def)
  then have "session_ok (tape_new tape_zero) [Dsp 44100, Perform [1, - 1, 1]]"
    by simp
  with head_bump_bounded_d [where x = tape_zero and es = "[Dsp 44100, Perform [1, - 1, 1]]"
      and store = store_float and y = "embed tape_zero" and ds = "[]" and w = NaN and u = NaN]
  show ?thesis by blast
qed

section \<open>The value written and the memory of the clipper\<close>

subsection \<open>A lower bound of the sine close to its maximum\<close>

lemma sum_lessThan_14:
  "(\<Sum>m<14. f m) = f 0 + f 1 + f 2 + f 3 + f 4 + f 5 + f 6 + f 7 + f 8 + f 9 + f 10 + f 11
      + f 12 + (f 13 :: real)" for f :: "nat \<Rightarrow> real"
proof -
  have "{..<14::nat} = {0, 1, 2, 3, 4, 5, 6, 7, 8, 9, 10, 11, 12, 13}"
    by (auto; presburger)
  then show ?thesis by simp
qed

lemma sin_coeff_values:
  "sin_coeff 0 = 0" "sin_coeff 1 = 1" "sin_coeff 2 = 0" "sin_coeff 3 = - 1 / 6"
  "sin_coeff 4 = 0" "sin_coeff 5 = 1 / 120" "sin_coeff 6 = 0" "sin_coeff 7 = - 1 / 5040"
  "sin_coeff 8 = 0" "sin_coeff 9 = 1 / 362880" "sin_coeff 10 = 0"
  "sin_coeff 11 = - 1 / 39916800" "sin_coeff 12 = 0" "sin_coeff 13 = 1 / 6227020800"
  by (simp_all add: sin_coeff_def fact_numeral)

lemma fact_14: "(fact 14 :: real) = 87178291200"
  by (simp add: fact_numeral)

lemma sin_lower14:
  fixes x :: real
  shows "x - x ^ 3 / 6 + x ^ 5 / 120 - x ^ 7 / 5040 + x ^ 9 / 362880 - x ^ 11 / 39916800
       + x ^ 13 / 6227020800 - x ^ 14 / 87178291200 \<le> sin x"
proof -
  have "\<bar>sin x - (\<Sum>m<14. sin_coeff m * x ^ m)\<bar> \<le> inverse (fact 14) * \<bar>x\<bar> ^ 14"
    by (rule Maclaurin_sin_bound)
  moreover have "inverse (fact 14) * \<bar>x\<bar> ^ 14 = x ^ 14 / 87178291200"
    unfolding fact_14 by (simp add: field_simps)
  moreover have "(\<Sum>m<14. sin_coeff m * x ^ m) =
     x - x ^ 3 / 6 + x ^ 5 / 120 - x ^ 7 / 5040 + x ^ 9 / 362880 - x ^ 11 / 39916800
       + x ^ 13 / 6227020800"
    unfolding sum_lessThan_14 sin_coeff_values by simp
  ultimately show ?thesis by linarith
qed

lemma poly14_interval:
  fixes a b :: real
  assumes "a = 1.5707963267" "b = 1.5707963268"
  shows "1 - 1 / 10 ^ 8 \<le> a - b ^ 3 / 6 + a ^ 5 / 120 - b ^ 7 / 5040 + a ^ 9 / 362880
       - b ^ 11 / 39916800 + a ^ 13 / 6227020800 - b ^ 14 / 87178291200"
  unfolding assms by (simp add: power_divide)

lemma sin_near_one:
  fixes x :: real
  assumes "1.5707963267 \<le> x" "x \<le> 1.5707963268"
  shows "1 - 1 / 10 ^ 8 \<le> sin x"
proof -
  define a :: real where "a = 1.5707963267"
  define b :: real where "b = 1.5707963268"
  have ax: "a \<le> x" and xb: "x \<le> b" using assms by (simp_all add: a_def b_def)
  have a0: "0 \<le> a" by (simp add: a_def)
  then have x0: "0 \<le> x" using ax by linarith
  have lo: "a ^ n \<le> x ^ n" for n using ax a0 by (rule power_mono)
  have hi: "x ^ n \<le> b ^ n" for n using xb x0 by (rule power_mono)
  have "1 - 1 / 10 ^ 8 \<le> a - b ^ 3 / 6 + a ^ 5 / 120 - b ^ 7 / 5040 + a ^ 9 / 362880
       - b ^ 11 / 39916800 + a ^ 13 / 6227020800 - b ^ 14 / 87178291200"
    using a_def b_def by (rule poly14_interval)
  also have "\<dots> \<le> x - x ^ 3 / 6 + x ^ 5 / 120 - x ^ 7 / 5040 + x ^ 9 / 362880
       - x ^ 11 / 39916800 + x ^ 13 / 6227020800 - x ^ 14 / 87178291200"
    using ax hi [of 3] lo [of 5] hi [of 7] lo [of 9] hi [of 11] lo [of 13] hi [of 14]
    by linarith
  also have "\<dots> \<le> sin x" by (rule sin_lower14)
  finally show ?thesis .
qed

lemma sin_clamp_square: "1 - 1 / 10 ^ 8 \<le> sin (1.2533141373155 * 1.2533141373155 :: real)"
  by (rule sin_near_one) simp_all

subsection \<open>The first sample of a loud block\<close>

lemma quotient_between:
  fixes s c lo hi :: real
  assumes "0 < c" "lo \<le> s" "s \<le> hi"
  shows "lo / c \<le> s / c" "s / c \<le> hi / c"
  using assms by (simp_all add: divide_right_mono)

lemma clamp_value_between:
  fixes y :: real
  assumes "y = sin (1.2533141373155 * 1.2533141373155) / 1.2533141373155"
  shows "13386281 < y * 2 ^ 24" "y * 2 ^ 24 < 13386282" "1 / 2 \<le> y" "y < 1"
proof -
  have lo: "(1 - 1 / 10 ^ 8) / 1.2533141373155 \<le> y"
    unfolding assms by (rule quotient_between(1) [OF _ sin_clamp_square order_refl]) simp
  have hi: "y \<le> 1 / 1.2533141373155"
    unfolding assms by (rule quotient_between(2) [OF _ order_refl sin_le_one]) simp
  have "(13386281 :: real) < (1 - 1 / 10 ^ 8) / 1.2533141373155 * 2 ^ 24" by simp
  then show "13386281 < y * 2 ^ 24" using lo by simp
  have "(1 :: real) / 1.2533141373155 * 2 ^ 24 < 13386282" by simp
  then show "y * 2 ^ 24 < 13386282" using hi by simp
  have "(1 / 2 :: real) \<le> (1 - 1 / 10 ^ 8) / 1.2533141373155" by simp
  then show "1 / 2 \<le> y" using lo by simp
  have "(1 :: real) / 1.2533141373155 < 1" by simp
  then show "y < 1" using hi by simp
qed

lemma clamp_above:
  fixes c v z :: real
  assumes "0 < c" "c \<le> v" "z = 0"
  shows "(let input1 = (if v > c then c else v);
              input2 = (if input1 < - c then - c else input1);
              absInput = \<bar>input2\<bar>
          in if absInput = z then z else sin (input2 * absInput) / absInput) = sin (c * c) / c"
  using assms by (auto simp: Let_def)

lemma spiral_clamped:
  assumes "1.2533141373155 \<le> v"
  shows "spiral_saturate v = sin (1.2533141373155 * 1.2533141373155) / 1.2533141373155"
  unfolding spiral_saturate_def by (rule clamp_above [OF _ assms]) simp_all

lemma soften_loud:
  fixes h v c :: real
  assumes "1 < h" "0 < c"
  shows "(let soften1 = \<bar>h\<bar> * c;
              soften2 = (if soften1 > c then c else soften1);
              applySoften = 1.0 - cos soften2;
              input1 = (if h > 0 then v - applySoften else v);
              input2 = (if h < 0 then input1 + applySoften else input1)
          in input2) = v - (1.0 - cos c)"
proof -
  have "c < \<bar>h\<bar> * c" using assms by simp
  then show ?thesis using assms by (simp add: Let_def)
qed

lemma tape_soften_loud:
  assumes "1 < h"
  shows "tape_soften h v = v - (1.0 - cos 1.57079633)"
  unfolding tape_soften_def by (rule soften_loud [OF assms]) simp

lemma tape_sideB_loud:
  assumes "iirMidRollerB x = 0" "iirHeadBumpB x = 0" "biquadB x 7 = 0" "bump = 1 / 25"
  shows "snd (tape_sideB roll bump x 100) = 100 - 100 * roll"
    "iirHeadBumpB (fst (tape_sideB roll bump x 100)) = 0"
    "iirHeadBumpA (fst (tape_sideB roll bump x 100)) = iirHeadBumpA x"
    "lastSample (fst (tape_sideB roll bump x 100)) = lastSample x"
  using assms(1-3) unfolding assms(4) by (simp_all add: tape_sideB_def Let_def)

lemma tape_sample_value:
  "snd (tape_sample roll bump x v) =
     hard_clip (fst (adclip
       (spiral_saturate (tape_soften (snd (tape_filters roll bump x (v * INPUT_GAIN))) (v * INPUT_GAIN))
        + (iirHeadBumpA (fst (tape_sample roll bump x v))
           + iirHeadBumpB (fst (tape_sample roll bump x v))) * HEAD_BUMP)
       (lastSample (fst (tape_filters roll bump x (v * INPUT_GAIN))))))"
  by (simp add: tape_sample_def tape_restrain_def split_beta Let_def)

lemma restrain_zero: "0 \<le> d \<Longrightarrow> restrain d 0 = 0"
  by (simp add: restrain_cases)

lemma adclip_inside:
  assumes "- 0.99 \<le> v" "v \<le> 0.99"
  shows "adclip v 0 = (v, v)"
  using assms by (simp add: adclip_def Let_def)

lemma tape_sample_loud:
  assumes "flip x = 0" "iirMidRollerB x = 0" "iirHeadBumpA x = 0" "iirHeadBumpB x = 0"
    "biquadB x 7 = 0" "lastSample x = 0" "roll \<le> 1 / 2" "bump = 1 / 25"
  shows "snd (tape_sample roll bump x 100)
      = sin (1.2533141373155 * 1.2533141373155) / 1.2533141373155"
proof -
  define y :: real where "y = sin (1.2533141373155 * 1.2533141373155) / 1.2533141373155"
  have g: "100 * INPUT_GAIN = 100" by (simp add: INPUT_GAIN_def)
  let ?f = "tape_filters roll bump x 100"
  note b = tape_sideB_loud [OF assms(2,4,5,8), of roll]
  have f: "snd ?f = 100 - 100 * roll" "iirHeadBumpA (fst ?f) = 0" "iirHeadBumpB (fst ?f) = 0"
    "lastSample (fst ?f) = 0"
    using assms(1,3,6) b by (simp_all add: tape_filters_def split_beta)
  have "1 < snd ?f" using assms(7) by (simp add: f(1))
  then have s: "tape_soften (snd ?f) 100 = 100 - (1.0 - cos 1.57079633)"
    by (rule tape_soften_loud)
  have "(1.2533141373155 :: real) \<le> 100 - (1.0 - c)" if "- 1 \<le> c" for c :: real
    using that by simp
  from this [OF cos_ge_minus_one]
  have "(1.2533141373155 :: real) \<le> 100 - (1.0 - cos 1.57079633)" .
  then have sat: "spiral_saturate (tape_soften (snd ?f) 100) = y"
    unfolding s y_def by (rule spiral_clamped)
  have hb: "iirHeadBumpA (fst (tape_sample roll bump x 100)) = 0"
    "iirHeadBumpB (fst (tape_sample roll bump x 100)) = 0"
    by (simp_all only: tape_sample_hb_fields g f(2,3) restrain_zero [OF suppress_range(1)])
  have "\<bar>y\<bar> \<le> 1" using spiral_le_one [of "tape_soften (snd ?f) 100"] by (simp only: sat)
  have "- 1 \<le> y * 1.2533141373155" "y * 1.2533141373155 \<le> 1"
    by (simp_all add: y_def)
  then have r: "- 0.99 \<le> y" "y \<le> 0.99" by simp_all
  have "snd (tape_sample roll bump x 100) = hard_clip (fst (adclip y 0))"
    by (simp only: tape_sample_value g sat f(4) hb) simp
  also have "\<dots> = y"
    by (simp add: adclip_inside [OF r] hard_clip_id [OF r])
  finally show ?thesis by (simp only: y_def)
qed

subsection \<open>Conversion to binary32\<close>

lemma store_float_between:
  fixes y :: real and N :: int
  assumes "1 / 2 \<le> y" "y < 1" "real_of_int N < y * 2 ^ 24" "y * 2 ^ 24 < real_of_int N + 1"
  shows "store_float (Fin y) \<noteq> Fin y"
proof
  assume eq: "store_float (Fin y) = Fin y"
  have y0: "0 < y" using assms(1) by simp
  have "real_of_int (- 1) \<le> log 2 y"
    using y0 assms(1) by (simp add: le_log_iff powr_minus)
  moreover have "log 2 y < real_of_int (- 1) + 1"
    using y0 assms(2) by simp
  ultimately have fl: "\<lfloor>log 2 y\<rfloor> = - 1" by (rule floor_unique)
  have ulp: "2 powr (real_of_int (max \<lfloor>log 2 y\<rfloor> (- 126)) - 23) = 1 / 2 ^ 24"
    by (simp add: fl powr_minus inverse_eq_divide)
  have ay: "\<bar>y\<bar> = y" using y0 by simp
  from eq y0 have "real_of_int (rne (y / (1 / 2 ^ 24))) * (1 / 2 ^ 24) = y"
    unfolding store_float_def dbl.case ay Let_def ulp by (simp split: if_splits)
  then have "y * 2 ^ 24 = real_of_int (rne (y / (1 / 2 ^ 24)))" by simp
  then obtain k :: int where "y * 2 ^ 24 = real_of_int k" by blast
  with assms(3,4) have "N < k" "k < N + 1" by simp_all
  then show False by simp
qed

subsection \<open>The value written is the converted memory\<close>

lemma loud_block:
  "snd (tape_perform (tape_dsp (tape_new tape_zero) 132300) [100])
     = [sin (1.2533141373155 * 1.2533141373155) / 1.2533141373155]"
  "lastSample (fst (tape_perform (tape_dsp (tape_new tape_zero) 132300) [100]))
     = sin (1.2533141373155 * 1.2533141373155) / 1.2533141373155"
proof -
  let ?x = "tape_dsp (tape_new tape_zero) 132300"
  have r: "RollAmount ?x \<le> 1 / 2"
    using softness_range by (simp add: RollAmount_def overallscale_def tape_dsp_def)
  have b: "HeadBumpFreq ?x = 1 / 25"
    by (simp add: HeadBumpFreq_def overallscale_def tape_dsp_def)
  have s: "flip (tape_setup ?x) = 0" "iirMidRollerB (tape_setup ?x) = 0"
    "iirHeadBumpA (tape_setup ?x) = 0" "iirHeadBumpB (tape_setup ?x) = 0"
    "biquadB (tape_setup ?x) 7 = 0" "lastSample (tape_setup ?x) = 0"
    by (simp_all add: tape_setup_def tape_dsp_def tape_new_def tape_zero_def)
  note v = tape_sample_loud [OF s r b]
  show "snd (tape_perform ?x [100])
     = [sin (1.2533141373155 * 1.2533141373155) / 1.2533141373155]"
    by (simp add: tape_perform_def split_beta Let_def v)
  show "lastSample (fst (tape_perform ?x [100]))
     = sin (1.2533141373155 * 1.2533141373155) / 1.2533141373155"
    by (simp add: tape_perform_def split_beta Let_def tape_sample_last [symmetric] v)
qed

text \<open>
  With \<^verbatim>\<open>t_float\<close> a \<^verbatim>\<open>float\<close> the value written is the nearest binary32 value, and that
  is not the double kept in \<^verbatim>\<open>lastSample\<close>: at 132300 Hz the first sample 100 of a new
  object leaves the clipper as \<open>sin (c * c) / c\<close> with \<open>c = 1.2533141373155\<close>, about
  0.79788456, which lies strictly between the neighbouring binary32 values
  \<open>13386281 / 2 ^ 24\<close> and \<open>13386282 / 2 ^ 24\<close>.
\<close>

theorem stored_sample_counterexample:
  "hd (snd (tape_perform_d store_float (embed (tape_dsp (tape_new tape_zero) 132300)) [Fin 100]))
     \<noteq> lastSample_d (fst (tape_perform_d store_float
                             (embed (tape_dsp (tape_new tape_zero) 132300)) [Fin 100]))"
proof -
  let ?x = "tape_dsp (tape_new tape_zero) 132300"
  define y :: real where "y = sin (1.2533141373155 * 1.2533141373155) / 1.2533141373155"
  have "636 \<le> x_sr ?x" by (simp add: tape_dsp_def)
  then have "rate_ok ?x" by (rule rate_ok_above)
  from tape_perform_Fin [OF this, of store_float "[100]"]
  have p: "tape_perform_d store_float (embed ?x) [Fin 100]
      = (embed (fst (tape_perform ?x [100])), [store_float (Fin y)])"
    by (simp add: loud_block y_def)
  have l: "lastSample (fst (tape_perform ?x [100])) = y"
    by (simp only: loud_block y_def)
  note c = clamp_value_between [OF y_def]
  have "store_float (Fin y) \<noteq> Fin y"
    by (rule store_float_between [of y 13386281]) (use c in simp_all)
  then show ?thesis by (simp add: p l)
qed

text \<open>
  Claim C9, with the conversion of the store: for finite values the clipper returns a
  value between -0.99 and 0.99 and leaves it as its memory, so the final hard clip does
  not change it. From construction on, in a history of \<^verbatim>\<open>tape_dsp\<close> and
  \<^verbatim>\<open>tape_perform\<close> calls all of whose blocks have a sample rate of at least 636 and
  samples within the range of binary32, arithmetic taken as exact, the memory is finite
  and stays in that interval, and the last sample written by a call, so every sample
  written, is the conversion by \<open>store\<close> to \<^verbatim>\<open>t_float\<close> of the memory left for the next
  sample: the memory itself when \<^verbatim>\<open>t_float\<close> is a double.
\<close>

theorem clipper_memory_stored:
  "(\<exists>r. adclip_d (Fin v) (Fin m) = (Fin r, Fin r) \<and> - 0.99 \<le> r \<and> r \<le> 0.99 \<and>
        hard_clip_d (Fin r) = Fin r) \<and>
   (session_ok (tape_new x) es \<longrightarrow>
      (\<exists>l. lastSample_d (tape_events_d store (tape_new_d (embed x)) (map embed_event es)) = Fin l \<and>
           - 0.99 \<le> l \<and> l \<le> 0.99)) \<and>
   (session_ok (tape_new x) es \<and> block_ok (tape_events (tape_new x) es) (vs @ [u]) \<longrightarrow>
      (\<exists>l. lastSample_d (fst (tape_perform_d store
                (tape_events_d store (tape_new_d (embed x)) (map embed_event es))
                (map Fin (vs @ [u])))) = Fin l \<and>
           - 0.99 \<le> l \<and> l \<le> 0.99 \<and>
           last (snd (tape_perform_d store
                (tape_events_d store (tape_new_d (embed x)) (map embed_event es))
                (map Fin (vs @ [u])))) = store (Fin l) \<and>
           last (snd (tape_perform_d store_double
                (tape_events_d store_double (tape_new_d (embed x)) (map embed_event es))
                (map Fin (vs @ [u])))) = Fin l))"
proof (intro conjI impI)
  have "adclip_d (Fin v) (Fin m) = (Fin (fst (adclip v m)), Fin (fst (adclip v m)))"
    by (simp add: adclip_Fin adclip_snd)
  moreover have "hard_clip_d (Fin (fst (adclip v m))) = Fin (fst (adclip v m))"
    by (simp add: hard_clip_Fin hard_clip_adclip)
  ultimately show "\<exists>r. adclip_d (Fin v) (Fin m) = (Fin r, Fin r) \<and> - 0.99 \<le> r \<and> r \<le> 0.99 \<and>
        hard_clip_d (Fin r) = Fin r"
    using adclip_bounds [of v m] by blast
next
  assume "session_ok (tape_new x) es"
  then have "tape_events_d store (tape_new_d (embed x)) (map embed_event es)
      = embed (tape_events (tape_new x) es)"
    by (simp add: tape_new_Fin tape_events_Fin)
  then have "lastSample_d (tape_events_d store (tape_new_d (embed x)) (map embed_event es))
      = Fin (lastSample (tape_events (tape_new x) es))"
    by simp
  then show "\<exists>l. lastSample_d (tape_events_d store (tape_new_d (embed x)) (map embed_event es)) = Fin l \<and>
           - 0.99 \<le> l \<and> l \<le> 0.99"
    using clipper_memory_is_output [where x = x and es = es] by blast
next
  let ?y = "tape_events (tape_new x) es"
  let ?p = "tape_perform ?y (vs @ [u])"
  assume a: "session_ok (tape_new x) es \<and> block_ok ?y (vs @ [u])"
  then have e: "tape_events_d st (tape_new_d (embed x)) (map embed_event es) = embed ?y" for st
    by (simp add: tape_new_Fin tape_events_Fin)
  from a have "rate_ok ?y" by (auto dest: block_ok_rate)
  note p = tape_perform_Fin [OF this, of _ "vs @ [u]"]
  have n: "snd ?p \<noteq> []"
    using perform_output_bounded [of ?y "vs @ [u]"] by auto
  have "- 0.99 \<le> lastSample ?y \<and> lastSample ?y \<le> 0.99"
    using clipper_memory_is_output [where x = x and es = es] by blast
  then have b: "- 0.99 \<le> lastSample (fst ?p)" "lastSample (fst ?p) \<le> 0.99"
    using tape_loop_last_bounds [of "tape_setup ?y" "RollAmount ?y" "HeadBumpFreq ?y" "vs @ [u]"]
    by (simp_all add: tape_perform_def tape_setup_def)
  have l: "last (snd ?p) = lastSample (fst ?p)"
    using tape_loop_last [of "vs @ [u]" "RollAmount ?y" "HeadBumpFreq ?y" "tape_setup ?y"]
    by (simp add: tape_perform_def)
  have "lastSample_d (fst (tape_perform_d store
                (tape_events_d store (tape_new_d (embed x)) (map embed_event es))
                (map Fin (vs @ [u])))) = Fin (lastSample (fst ?p))"
    unfolding e p by simp
  moreover have "last (snd (tape_perform_d store
                (tape_events_d store (tape_new_d (embed x)) (map embed_event es))
                (map Fin (vs @ [u])))) = store (Fin (lastSample (fst ?p)))"
    unfolding e p using n by (simp add: last_map l)
  moreover have "last (snd (tape_perform_d store_double
                (tape_events_d store_double (tape_new_d (embed x)) (map embed_event es))
                (map Fin (vs @ [u])))) = Fin (lastSample (fst ?p))"
    unfolding e p using n by (simp add: last_map l store_double_def)
  ultimately show "\<exists>l. lastSample_d (fst (tape_perform_d store
                (tape_events_d store (tape_new_d (embed x)) (map embed_event es))
                (map Fin (vs @ [u])))) = Fin l \<and>
           - 0.99 \<le> l \<and> l \<le> 0.99 \<and>
           last (snd (tape_perform_d store
                (tape_events_d store (tape_new_d (embed x)) (map embed_event es))
                (map Fin (vs @ [u])))) = store (Fin l) \<and>
           last (snd (tape_perform_d store_double
                (tape_events_d store_double (tape_new_d (embed x)) (map embed_event es))
                (map Fin (vs @ [u])))) = Fin l"
    using b by blast
qed

theorem clipper_memory_stored_witness:
  "\<exists>l. - 0.99 \<le> l \<and> l \<le> 0.99 \<and>
       last (snd (tape_perform_d store_float
              (tape_events_d store_float (tape_new_d (embed tape_zero)) (map embed_event [Dsp 44100]))
              (map Fin ([2] @ [- 3])))) = store_float (Fin l)"
proof -
  have "session_ok (tape_new tape_zero) [Dsp 44100]" by simp
  moreover have "block_ok (tape_events (tape_new tape_zero) [Dsp 44100]) ([2] @ [- 3])"
    by (simp add: block_ok_def tape_dsp_def)
  ultimately show ?thesis
    using clipper_memory_stored [where x = tape_zero and es = "[Dsp 44100]" and vs = "[2]"
        and u = "- 3" and store = store_float and v = 0 and m = 0]
    by blast
qed

end
